theory Spec2Isabelle
  imports Main "HOL-Library.Word" "HOL-Library.Signed_Division"
begin

section \<open>MotdPE: the unconnected-ping probe of \<open>src/motdpe/MotdPE.cpp\<close>\<close>

text \<open>
  The program is one routine, \<open>QueryMotdImpl\<close>, and three thin entry points. The routine
  talks to the operating system through \<open>getaddrinfo\<close>, \<open>socket\<close>, \<open>setsockopt\<close>,
  \<open>sendto\<close>, \<open>recvfrom\<close>, \<open>close\<close> and \<open>freeaddrinfo\<close>. The model below is the POSIX
  branch of the source (the \<open>#else\<close> of every \<open>#ifdef _WIN32\<close>), on an LP64 platform
  (\<open>long\<close> and the representation of \<open>std::chrono::milliseconds\<close> are 64-bit signed).

  Every call into the operating system is written to a trace together with what the
  operating system answered. The operating system itself is a parameter: a record of
  functions that answer each call from the history of all earlier calls and the call's
  arguments, so nothing is assumed about how a server, a network or a resolver behaves.
\<close>

subsection \<open>Data\<close>

type_synonym byte = "8 word"

type_synonym sockaddr = "byte list"

text \<open>One node of the list \<open>getaddrinfo\<close> returns; \<open>ai_next\<close> is the tail of the HOL list.\<close>

record addrinfo =
  ai_family :: int
  ai_addr :: sockaddr
  ai_addrlen :: nat

record timeval =
  tv_sec :: "64 word"
  tv_usec :: "64 word"

datatype event =
    Getaddrinfo string string int
  | Socket int int
  | Setsockopt int timeval int
  | Sendto int "byte list" sockaddr nat int
  | Recvfrom int nat "byte list option"
  | Close int
  | Freeaddrinfo

text \<open>
  \<open>Getaddrinfo host service status\<close> (the hints are always \<open>AF_UNSPEC\<close>, \<open>SOCK_DGRAM\<close>,
  \<open>IPPROTO_UDP\<close>), \<open>Socket family descriptor\<close> (always \<open>SOCK_DGRAM\<close>, \<open>IPPROTO_UDP\<close>),
  \<open>Setsockopt descriptor value status\<close> (always \<open>SOL_SOCKET\<close>, \<open>SO_RCVTIMEO\<close>),
  \<open>Sendto descriptor payload address addrlen status\<close>,
  \<open>Recvfrom descriptor buffersize datagram\<close> (\<open>None\<close> when the call returns \<open>-1\<close>:
  an error or the receive timeout), \<open>Close descriptor\<close> and \<open>Freeaddrinfo\<close>.
\<close>

record os =
  os_getaddrinfo :: "string \<Rightarrow> string \<Rightarrow> int \<times> addrinfo list"
  os_gai_strerror :: "int \<Rightarrow> string"
  os_socket :: "event list \<Rightarrow> int \<Rightarrow> int"
  os_setsockopt :: "event list \<Rightarrow> int \<Rightarrow> timeval \<Rightarrow> int"
  os_sendto :: "event list \<Rightarrow> int \<Rightarrow> byte list \<Rightarrow> sockaddr \<Rightarrow> nat \<Rightarrow> int"
  os_recvfrom :: "event list \<Rightarrow> int \<Rightarrow> nat \<Rightarrow> byte list option"
  os_uninit :: "nat \<Rightarrow> byte"

text \<open>
  \<open>os_uninit\<close> is the indeterminate content of the uninitialised
  \<open>std::array<std::byte, 1024> recvBuf\<close> when the routine starts.
\<close>

record probe_state =
  trace :: "event list"
  recvBuf :: "byte list"

datatype exn =
    MotdException string
  | RuntimeError string
  | StdException string
  | NonStdThrow

text \<open>
  \<open>MotdException\<close> derives from \<open>std::runtime_error\<close>; \<open>StdException\<close> stands for any
  other class derived from \<open>std::exception\<close>; \<open>NonStdThrow\<close> is a thrown object that is
  not a \<open>std::exception\<close> (only \<open>catch (...)\<close> takes it). The string is \<open>what()\<close>.
\<close>

fun is_std_exception :: "exn \<Rightarrow> bool" where
  "is_std_exception NonStdThrow = False"
| "is_std_exception _ = True"

subsection \<open>Constants\<close>

text \<open>Lines 55 to 57, and the probe packet of lines 154 to 158.\<close>

definition INVALID_SOCKET_VALUE :: int where
  "INVALID_SOCKET_VALUE = -1"

definition SOCKET_ERROR_VALUE :: int where
  "SOCKET_ERROR_VALUE = -1"

definition queryBuf :: "byte list" where
  "queryBuf =
    [0x01, 0x00, 0x00, 0x00, 0x00, 0xFF, 0xFF,
     0xC1, 0x1D, 0x00, 0xFF, 0xFF, 0x00, 0xFE,
     0xFE, 0xFE, 0xFE, 0xFD, 0xFD, 0xFD, 0xFD,
     0x12, 0x34, 0x56, 0x78, 0x9C, 0x18, 0x28,
     0x7F, 0xE1, 0x64, 0x89, 0x8D]"

definition recvBuf_size :: nat where
  "recvBuf_size = 1024"

subsection \<open>Integer and text helpers of the language\<close>

text \<open>
  \<open>/\<close> and \<open>%\<close> of C++ on a signed 64-bit integer: the quotient is truncated towards
  zero and the remainder has the sign of the dividend.
\<close>

definition div_i64 :: "64 word \<Rightarrow> 64 word \<Rightarrow> 64 word" where
  "div_i64 a b = word_of_int (sint a sdiv sint b)"

definition rem_i64 :: "64 word \<Rightarrow> 64 word \<Rightarrow> 64 word" where
  "rem_i64 a b = word_of_int (sint a smod sint b)"

text \<open>\<open>std::to_string\<close> and \<open>std::format("{}", ...)\<close> of an unsigned integer: decimal digits.\<close>

definition digit_char :: "nat \<Rightarrow> char" where
  "digit_char d = ''0123456789'' ! d"

fun to_string :: "nat \<Rightarrow> string" where
  "to_string n = (if n < 10 then [digit_char n] else to_string (n div 10) @ [digit_char (n mod 10)])"

text \<open>\<open>reinterpret_cast<const char*>\<close> of a byte range: the same bytes, read as characters.\<close>

definition char_of_byte :: "byte \<Rightarrow> char" where
  "char_of_byte b = char_of (unat b)"

definition as_text :: "byte list \<Rightarrow> string" where
  "as_text bs = map char_of_byte bs"

subsection \<open>System calls, logged\<close>

definition log_event :: "event \<Rightarrow> probe_state \<Rightarrow> probe_state" where
  "log_event e s = s\<lparr>trace := trace s @ [e]\<rparr>"

definition sys_socket :: "os \<Rightarrow> int \<Rightarrow> probe_state \<Rightarrow> int \<times> probe_state" where
  "sys_socket env family s =
     (let fd = os_socket env (trace s) family in (fd, log_event (Socket family fd) s))"

definition sys_setsockopt :: "os \<Rightarrow> int \<Rightarrow> timeval \<Rightarrow> probe_state \<Rightarrow> int \<times> probe_state" where
  "sys_setsockopt env fd tv s =
     (let rc = os_setsockopt env (trace s) fd tv in (rc, log_event (Setsockopt fd tv rc) s))"

definition sys_sendto ::
  "os \<Rightarrow> int \<Rightarrow> byte list \<Rightarrow> sockaddr \<Rightarrow> nat \<Rightarrow> probe_state \<Rightarrow> int \<times> probe_state" where
  "sys_sendto env fd buf dest len s =
     (let rc = os_sendto env (trace s) fd buf dest len
      in (rc, log_event (Sendto fd buf dest len rc) s))"

text \<open>
  \<open>recvfrom\<close> on a datagram socket without flags: a datagram longer than the buffer is
  cut to the buffer's size, the bytes received overwrite the front of the buffer and the
  rest of the buffer keeps what it held; the call returns the number of bytes stored,
  or \<open>-1\<close> and leaves the buffer alone.
\<close>

definition sys_recvfrom :: "os \<Rightarrow> int \<Rightarrow> probe_state \<Rightarrow> int \<times> probe_state" where
  "sys_recvfrom env fd s =
     (let cap = length (recvBuf s);
          answer = os_recvfrom env (trace s) fd cap;
          s' = log_event (Recvfrom fd cap answer) s
      in case answer of
           None \<Rightarrow> (-1, s')
         | Some d \<Rightarrow>
             (let n = min (length d) cap
              in (int n, s'\<lparr>recvBuf := take n d @ drop n (recvBuf s)\<rparr>)))"

subsection \<open>The resource handles\<close>

text \<open>\<open>SocketHandle::operator bool\<close>, line 97.\<close>

definition SocketHandle_valid :: "int \<Rightarrow> bool" where
  "SocketHandle_valid mSocket \<longleftrightarrow> mSocket \<noteq> INVALID_SOCKET_VALUE"

text \<open>
  \<open>SocketHandle::close\<close>, lines 99 to 108, which the destructor runs when the loop body is
  left.
\<close>

definition SocketHandle_close :: "int \<Rightarrow> probe_state \<Rightarrow> probe_state" where
  "SocketHandle_close mSocket s =
     (if mSocket \<noteq> INVALID_SOCKET_VALUE then log_event (Close mSocket) s else s)"

text \<open>The destructor of \<open>AddrInfoPtr\<close>, lines 117 to 119.\<close>

definition AddrInfoPtr_release :: "addrinfo list \<Rightarrow> probe_state \<Rightarrow> probe_state" where
  "AddrInfoPtr_release mAddrInfo s =
     (if mAddrInfo \<noteq> [] then log_event Freeaddrinfo s else s)"

subsection \<open>The probe routine\<close>

text \<open>The POSIX conversion of the timeout, lines 197 to 199.\<close>

definition timeval_of :: "64 word \<Rightarrow> timeval" where
  "timeval_of timeoutMs =
     \<lparr>tv_sec = div_i64 timeoutMs 1000, tv_usec = rem_i64 timeoutMs 1000 * 1000\<rparr>"

text \<open>
  \<open>result.assign(recvBuf.data() + 35, recvLen - 35)\<close>: \<open>recvLen - 35\<close> characters of the
  buffer, from offset 35.
\<close>

definition assign_result :: "byte list \<Rightarrow> int \<Rightarrow> string" where
  "assign_result buf recvLen = as_text (take (nat (recvLen - 35)) (drop 35 buf))"

datatype step = Continue | Break string

text \<open>
  The body of the \<open>for\<close> loop over the resolved addresses, lines 188 to 232. Each
  \<open>continue\<close> and the \<open>break\<close> leave the scope of \<open>sock\<close>, which closes it.
\<close>

definition loop_body :: "os \<Rightarrow> timeval \<Rightarrow> addrinfo \<Rightarrow> probe_state \<Rightarrow> step \<times> probe_state" where
  "loop_body env tv addr s0 =
     (let (sock, s1) = sys_socket env (ai_family addr) s0 in
      if \<not> SocketHandle_valid sock then (Continue, SocketHandle_close sock s1)
      else
        let (rc, s2) = sys_setsockopt env sock tv s1 in
        if rc = SOCKET_ERROR_VALUE then (Continue, SocketHandle_close sock s2)
        else
          let (sent, s3) = sys_sendto env sock queryBuf (ai_addr addr) (ai_addrlen addr) s2 in
          if sent = SOCKET_ERROR_VALUE then (Continue, SocketHandle_close sock s3)
          else
            let (recvLen, s4) = sys_recvfrom env sock s3 in
            if recvLen > 35
            then (Break (assign_result (recvBuf s4) recvLen), SocketHandle_close sock s4)
            else (Continue, SocketHandle_close sock s4))"

text \<open>
  The loop: \<open>None\<close> is \<open>success == false\<close> at its end, \<open>Some r\<close> is \<open>success == true\<close>
  with \<open>result == r\<close>.
\<close>

fun for_each_addr ::
  "os \<Rightarrow> timeval \<Rightarrow> addrinfo list \<Rightarrow> probe_state \<Rightarrow> string option \<times> probe_state" where
  "for_each_addr env tv [] s = (None, s)"
| "for_each_addr env tv (addr # rest) s =
     (case loop_body env tv addr s of
        (Break r, s') \<Rightarrow> (Some r, s')
      | (Continue, s') \<Rightarrow> for_each_addr env tv rest s')"

definition resolution_failed_message :: "os \<Rightarrow> int \<Rightarrow> string" where
  "resolution_failed_message env status = ''DNS resolution failed: '' @ os_gai_strerror env status"

definition all_failed_message :: "string \<Rightarrow> 16 word \<Rightarrow> string" where
  "all_failed_message host port =
     ''All connection attempts failed for '' @ host @ '':'' @ to_string (unat port)"

definition initial_state :: "os \<Rightarrow> probe_state" where
  "initial_state env = \<lparr>trace = [], recvBuf = map (os_uninit env) [0..<recvBuf_size]\<rparr>"

text \<open>
  \<open>QueryMotdImpl\<close>, lines 149 to 240: the thrown exception or the returned string, and the
  trace of the call. The host is taken to be a C string (no embedded NUL), as
  \<open>getaddrinfo\<close> reads it. Both \<open>throw\<close> statements raise \<open>MotdException\<close>, with the
  messages of lines 176 and 236.
\<close>

definition QueryMotdImpl :: "os \<Rightarrow> string \<Rightarrow> 16 word \<Rightarrow> 64 word \<Rightarrow> (exn + string) \<times> event list" where
  "QueryMotdImpl env host port timeout =
     (let portStr = to_string (unat port);
          (status, res) = os_getaddrinfo env host portStr;
          s0 = log_event (Getaddrinfo host portStr status) (initial_state env)
      in if status \<noteq> 0
         then (Inl (MotdException (resolution_failed_message env status)), trace s0)
         else
           let timeoutMs = timeout;
               (found, s1) = for_each_addr env (timeval_of timeoutMs) res s0;
               s2 = AddrInfoPtr_release res s1
           in case found of
                None \<Rightarrow> (Inl (MotdException (all_failed_message host port)), trace s2)
              | Some result \<Rightarrow> (Inr result, trace s2))"

text \<open>The blocking entry point, lines 244 to 246.\<close>

definition queryMotd :: "os \<Rightarrow> string \<Rightarrow> 16 word \<Rightarrow> 64 word \<Rightarrow> (exn + string) \<times> event list" where
  "queryMotd env host port timeout = QueryMotdImpl env host port timeout"

subsection \<open>The continuation-based entry point\<close>

text \<open>
  A \<open>std::function\<close> is \<open>None\<close> when empty. A continuation that is called either returns
  (\<open>None\<close>) or throws (\<open>Some e\<close>). The body of the spawned thread yields the list of
  continuation calls it made and the exception that leaves the thread function, if any.
\<close>

datatype invocation = OnSuccess string | OnError exn

type_synonym 'a continuation = "('a \<Rightarrow> exn option) option"

text \<open>The \<open>try\<close> block, lines 267 to 270.\<close>

definition try_block :: "(exn + string) \<Rightarrow> string continuation \<Rightarrow> invocation list \<times> exn option" where
  "try_block outcome onSuccess =
     (case outcome of
        Inl e \<Rightarrow> ([], Some e)
      | Inr result \<Rightarrow>
          (case onSuccess of
             None \<Rightarrow> ([], None)
           | Some f \<Rightarrow> ([OnSuccess result], f result)))"

text \<open>The two handlers, lines 271 to 279.\<close>

definition catch_handlers :: "exn \<Rightarrow> exn continuation \<Rightarrow> invocation list \<times> exn option" where
  "catch_handlers e onError =
     (if is_std_exception e
      then (case onError of None \<Rightarrow> ([], None) | Some g \<Rightarrow> ([OnError e], g e))
      else (case onError of
              None \<Rightarrow> ([], None)
            | Some g \<Rightarrow>
                ([OnError (RuntimeError ''Unknown exception'')],
                 g (RuntimeError ''Unknown exception''))))"

definition thread_body ::
  "(exn + string) \<Rightarrow> string continuation \<Rightarrow> exn continuation \<Rightarrow> invocation list \<times> exn option" where
  "thread_body outcome onSuccess onError =
     (case try_block outcome onSuccess of
        (calls, None) \<Rightarrow> (calls, None)
      | (calls, Some e) \<Rightarrow>
          (let (calls', escaped) = catch_handlers e onError in (calls @ calls', escaped)))"

text \<open>
  \<open>queryMotdAsync\<close> with continuations, lines 254 to 281: what the detached thread does,
  with the trace of the probe it runs. Creating and detaching the thread is not part of
  the model.
\<close>

definition queryMotdAsync ::
  "os \<Rightarrow> string \<Rightarrow> 16 word \<Rightarrow> string continuation \<Rightarrow> exn continuation \<Rightarrow> 64 word
     \<Rightarrow> (invocation list \<times> exn option) \<times> event list" where
  "queryMotdAsync env host port onSuccess onError timeout =
     (let (outcome, tr) = QueryMotdImpl env host port timeout
      in (thread_body outcome onSuccess onError, tr))"

subsection \<open>Reading a trace\<close>

text \<open>
  The observations the properties are stated on. They are functions of the trace alone:
  what was asked of the operating system and what it answered.
\<close>

fun is_Socket :: "event \<Rightarrow> bool" where
  "is_Socket (Socket family fd) = True"
| "is_Socket _ = False"

fun is_Sendto :: "event \<Rightarrow> bool" where
  "is_Sendto (Sendto fd buf dest len rc) = True"
| "is_Sendto _ = False"

fun is_Recvfrom :: "event \<Rightarrow> bool" where
  "is_Recvfrom (Recvfrom fd cap answer) = True"
| "is_Recvfrom _ = False"

fun is_Close :: "event \<Rightarrow> bool" where
  "is_Close (Close fd) = True"
| "is_Close _ = False"

text \<open>The calls made on or for a socket: every event but the two of the resolver.\<close>

fun socket_op :: "event \<Rightarrow> bool" where
  "socket_op (Getaddrinfo host service status) = False"
| "socket_op Freeaddrinfo = False"
| "socket_op _ = True"

text \<open>A \<open>socket\<close> call that returned a valid descriptor.\<close>

fun opens :: "event \<Rightarrow> bool" where
  "opens (Socket family fd) = (fd \<noteq> INVALID_SOCKET_VALUE)"
| "opens _ = False"

text \<open>A \<open>setsockopt\<close> call that succeeded.\<close>

fun configures :: "event \<Rightarrow> bool" where
  "configures (Setsockopt fd tv rc) = (rc \<noteq> SOCKET_ERROR_VALUE)"
| "configures _ = False"

definition count_events :: "(event \<Rightarrow> bool) \<Rightarrow> event list \<Rightarrow> nat" where
  "count_events P es = length (filter P es)"

text \<open>The descriptor an event acts on.\<close>

fun descriptor :: "event \<Rightarrow> int option" where
  "descriptor (Socket family fd) = Some fd"
| "descriptor (Setsockopt fd tv rc) = Some fd"
| "descriptor (Sendto fd buf dest len rc) = Some fd"
| "descriptor (Recvfrom fd cap answer) = Some fd"
| "descriptor (Close fd) = Some fd"
| "descriptor _ = None"

text \<open>
  The bytes a \<open>recvfrom\<close> call left in the buffer, when there are more than 35 of them:
  the replies the routine accepts.
\<close>

fun usable_reply :: "event \<Rightarrow> byte list option" where
  "usable_reply (Recvfrom fd cap (Some d)) =
     (if 35 < min (length d) cap then Some (take cap d) else None)"
| "usable_reply _ = None"

definition usable_replies :: "event list \<Rightarrow> byte list list" where
  "usable_replies tr = List.map_filter usable_reply tr"

text \<open>
  The trace cut into attempts: a new attempt starts at every \<open>socket\<close> call.
  \<open>group_attempts\<close> walks the events from the right, holding the events seen since the
  last \<open>socket\<close> call.
\<close>

fun group_attempts :: "event list \<Rightarrow> event list \<times> event list list" where
  "group_attempts [] = ([], [])"
| "group_attempts (e # es) =
     (let (cur, groups) = group_attempts es
      in if is_Socket e then ([], (e # cur) # groups) else (e # cur, groups))"

definition attempts :: "event list \<Rightarrow> event list list" where
  "attempts tr = snd (group_attempts (filter socket_op tr))"

text \<open>
  An attempt is for a candidate when it starts with the \<open>socket\<close> call of the candidate's
  family, every later event acts on the descriptor that call returned, and every datagram
  goes to the candidate's address.
\<close>

fun sent_to :: "addrinfo \<Rightarrow> event \<Rightarrow> bool" where
  "sent_to a (Sendto fd buf dest len rc) = (dest = ai_addr a \<and> len = ai_addrlen a)"
| "sent_to a _ = True"

fun attempt_for :: "addrinfo \<Rightarrow> event list \<Rightarrow> bool" where
  "attempt_for a [] = False"
| "attempt_for a (e # es) =
     (case e of
        Socket family fd \<Rightarrow>
          family = ai_family a \<and> list_all (\<lambda>x. descriptor x = Some fd \<and> sent_to a x) es
      | _ \<Rightarrow> False)"

subsection \<open>A scripted operating system\<close>

text \<open>
  For running the routine on concrete inputs: the resolver's answer is fixed, and the
  \<open>i\<close>-th \<open>socket\<close> call and the calls on its descriptor behave as the \<open>i\<close>-th entry of a
  script says.
\<close>

datatype behaviour =
    NoSocket
  | NoTimeout
  | SendFails
  | Silent
  | Answers "byte list"

definition script_at :: "behaviour list \<Rightarrow> nat \<Rightarrow> behaviour" where
  "script_at script i = (if i < length script then script ! i else Silent)"

definition scripted_os :: "int \<times> addrinfo list \<Rightarrow> behaviour list \<Rightarrow> os" where
  "scripted_os resolution script =
     \<lparr>os_getaddrinfo = (\<lambda>host service. resolution),
      os_gai_strerror = (\<lambda>status. ''Name or service not known''),
      os_socket = (\<lambda>h family.
         if script_at script (count_events is_Socket h) = NoSocket then -1 else 3),
      os_setsockopt = (\<lambda>h fd tv.
         if script_at script (count_events is_Socket h - 1) = NoTimeout then -1 else 0),
      os_sendto = (\<lambda>h fd buf dest len.
         if script_at script (count_events is_Socket h - 1) = SendFails then -1
         else int (length buf)),
      os_recvfrom = (\<lambda>h fd cap.
         case script_at script (count_events is_Socket h - 1) of
           Answers d \<Rightarrow> Some d
         | _ \<Rightarrow> None),
      os_uninit = (\<lambda>i. 0xAA)\<rparr>"

definition ipv4_candidate :: addrinfo where
  "ipv4_candidate = \<lparr>ai_family = 2, ai_addr = [2, 0, 0x4A, 0xBC, 127, 0, 0, 1], ai_addrlen = 16\<rparr>"

definition ipv6_candidate :: addrinfo where
  "ipv6_candidate = \<lparr>ai_family = 10, ai_addr = [10, 0, 0x4A, 0xBC], ai_addrlen = 28\<rparr>"

text \<open>A pong: 35 bytes of header and the text \<open>MCPE;Hi\<close>.\<close>

definition pong :: "byte list" where
  "pong = replicate 35 0x1C @ [0x4D, 0x43, 0x50, 0x45, 0x3B, 0x48, 0x69]"

subsection \<open>Runs, as the answers of the operating system\<close>

text \<open>
  For the proofs. One pass through the loop body is determined by four answers: the
  descriptor \<open>socket\<close> returned, the status of \<open>setsockopt\<close>, the status of \<open>sendto\<close> and
  what \<open>recvfrom\<close> delivered; answers to calls that were not made are ignored.
  \<open>attempt_events\<close> lists the calls such a pass makes, \<open>attempt_reply\<close> is the reply it
  accepts, if any. A run of the loop is a list of such answers, one per pass:
  \<open>valid_run\<close> says that it ends at the first accepted reply or else covers all
  candidates. That the loop of the routine behaves so is proved below
  (\<open>loop_body_run\<close>, \<open>for_each_addr_run\<close>).
\<close>

type_synonym answers = "int \<times> int \<times> int \<times> byte list option"

fun attempt_events :: "timeval \<Rightarrow> addrinfo \<Rightarrow> answers \<Rightarrow> event list" where
  "attempt_events tv a (fd, rc, sent, answer) =
     Socket (ai_family a) fd #
     (if fd = INVALID_SOCKET_VALUE then []
      else Setsockopt fd tv rc #
        (if rc = SOCKET_ERROR_VALUE then [Close fd]
         else Sendto fd queryBuf (ai_addr a) (ai_addrlen a) sent #
           (if sent = SOCKET_ERROR_VALUE then [Close fd]
            else [Recvfrom fd recvBuf_size answer, Close fd])))"

fun attempt_reply :: "answers \<Rightarrow> byte list option" where
  "attempt_reply (fd, rc, sent, answer) =
     (if fd \<noteq> INVALID_SOCKET_VALUE \<and> rc \<noteq> SOCKET_ERROR_VALUE \<and> sent \<noteq> SOCKET_ERROR_VALUE
      then usable_reply (Recvfrom fd recvBuf_size answer) else None)"

fun valid_run :: "answers list \<Rightarrow> nat \<Rightarrow> bool" where
  "valid_run [] n = (n = 0)"
| "valid_run (p # ps) n =
     (0 < n \<and> (case attempt_reply p of Some r \<Rightarrow> ps = [] | None \<Rightarrow> valid_run ps (n - 1)))"

fun run_reply :: "answers list \<Rightarrow> byte list option" where
  "run_reply [] = None"
| "run_reply (p # ps) = (case attempt_reply p of Some r \<Rightarrow> Some r | None \<Rightarrow> run_reply ps)"

definition run_events :: "timeval \<Rightarrow> addrinfo list \<Rightarrow> answers list \<Rightarrow> event list list" where
  "run_events tv as ps = map2 (attempt_events tv) as ps"

definition release_events :: "addrinfo list \<Rightarrow> event list" where
  "release_events res = (if res = [] then [] else [Freeaddrinfo])"

text \<open>
  The calls of one pass for the candidate \<open>a\<close>, as a predicate: the four shapes a pass
  can have, by the first call that fails.
\<close>

definition pass_shape :: "timeval \<Rightarrow> addrinfo \<Rightarrow> event list \<Rightarrow> bool" where
  "pass_shape tv a es \<longleftrightarrow>
     es = [Socket (ai_family a) (- 1)]
     \<or> (\<exists>fd. fd \<noteq> - 1 \<and> es = [Socket (ai_family a) fd, Setsockopt fd tv (- 1), Close fd])
     \<or> (\<exists>fd rc. fd \<noteq> - 1 \<and> rc \<noteq> - 1
           \<and> es = [Socket (ai_family a) fd, Setsockopt fd tv rc,
                   Sendto fd queryBuf (ai_addr a) (ai_addrlen a) (- 1), Close fd])
     \<or> (\<exists>fd rc sent answer. fd \<noteq> - 1 \<and> rc \<noteq> - 1 \<and> sent \<noteq> - 1
           \<and> es = [Socket (ai_family a) fd, Setsockopt fd tv rc,
                   Sendto fd queryBuf (ai_addr a) (ai_addrlen a) sent,
                   Recvfrom fd 1024 answer, Close fd])"

section \<open>Properties\<close>

declare to_string.simps [simp del]

subsection \<open>Arithmetic of the timeout\<close>

lemma sdiv_1000: "(k::int) sdiv 1000 = (if 0 \<le> k then k div 1000 else - ((- k) div 1000))"
  by (simp add: signed_divide_int_def sgn_if)

lemma smod_1000: "(k::int) smod 1000 = (if 0 \<le> k then k mod 1000 else - ((- k) mod 1000))"
  by (simp add: signed_modulo_int_def sgn_if)

lemma sdiv_1000_range:
  "- (2^63) \<le> (k::int) \<Longrightarrow> k < 2^63 \<Longrightarrow> - (2^63) \<le> k sdiv 1000 \<and> k sdiv 1000 < 2^63"
  unfolding sdiv_1000 by (simp; arith)

lemma smod_1000_range: "- 999 \<le> (k::int) smod 1000 \<and> k smod 1000 \<le> 999"
  unfolding smod_1000 by (simp; arith)

lemma usec_back_to_msec: "((k::int) smod 1000 * 1000) sdiv 1000 = k smod 1000"
  by (simp add: signed_divide_int_def sgn_if abs_mult)

lemma sec_usec_recompose: "(k::int) sdiv 1000 * 1000 + (k smod 1000 * 1000) sdiv 1000 = k"
  unfolding usec_back_to_msec by (rule sdiv_mult_smod_eq)

lemma sint_of_int_i64:
  "- (2^63) \<le> x \<Longrightarrow> x < 2^63 \<Longrightarrow> sint (word_of_int x :: 64 word) = x"
  by (simp add: sint_sbintrunc' signed_take_bit_int_eq_self)

lemma sint_div_i64: "sint (div_i64 t 1000) = sint t sdiv 1000"
proof -
  have "- (2^63) \<le> sint t" "sint t < 2^63"
    using sint_ge[of t] sint_lt[of t] by simp_all
  then have "- (2^63) \<le> sint t sdiv 1000 \<and> sint t sdiv 1000 < 2^63"
    by (rule sdiv_1000_range)
  then show ?thesis
    by (simp add: div_i64_def sint_of_int_i64)
qed

lemma sint_usec: "sint (rem_i64 t 1000 * 1000) = (sint t smod 1000) * 1000"
proof -
  have b: "- 999 \<le> sint t smod 1000 \<and> sint t smod 1000 \<le> 999"
    by (rule smod_1000_range)
  have "rem_i64 t 1000 * 1000 = (word_of_int ((sint t smod 1000) * 1000) :: 64 word)"
    by (simp add: rem_i64_def)
  then have "sint (rem_i64 t 1000 * 1000)
               = sint (word_of_int ((sint t smod 1000) * 1000) :: 64 word)"
    by (rule arg_cong)
  also have "\<dots> = (sint t smod 1000) * 1000"
    by (rule sint_of_int_i64) (use b in auto)
  finally show ?thesis .
qed

subsection \<open>The probe packet\<close>

text \<open>
  C3, as the claim states it, fails: the bytes at offsets 1 to 8 of the probe packet are
  not all zero, the byte at offset 5 is \<open>0xFF\<close>.
\<close>

theorem timestamp_field_not_all_zero: "\<not> (\<forall>i \<in> {1..8}. queryBuf ! i = 0)"
proof
  assume "\<forall>i \<in> {1..8}. queryBuf ! i = 0"
  then have "queryBuf ! 5 = 0" by simp
  then show False by (simp add: queryBuf_def)
qed

text \<open>
  C3, amended. The 8 bytes at offsets 1 to 8 of the probe packet are the constant
  \<open>00 00 00 00 FF FF C1 1D\<close>: the first four are zero, the last four are not.
\<close>

theorem timestamp_field_constant:
  "take 8 (drop 1 queryBuf) = [0x00, 0x00, 0x00, 0x00, 0xFF, 0xFF, 0xC1, 0x1D]"
  by (simp add: queryBuf_def)

subsection \<open>The loop, pass by pass\<close>

lemma assign_received:
  assumes "35 < min (length d) cap" and "length buf = cap"
  shows "assign_result (take (min (length d) cap) d @ drop (min (length d) cap) buf)
           (int (min (length d) cap)) = as_text (drop 35 (take cap d))"
proof -
  let ?n = "min (length d) cap"
  have n: "length (take ?n d) = ?n" by simp
  have "take (?n - 35) (drop 35 (take ?n d @ drop ?n buf)) = drop 35 (take ?n d)"
    using assms(1) by (auto simp: min_def)
  moreover have "take ?n d = take cap d" by (simp add: min_def)
  moreover have "nat (int ?n - 35) = ?n - 35" by simp
  ultimately show ?thesis
    unfolding assign_result_def by (simp only:)
qed

lemma loop_body_run:
  assumes len: "length (recvBuf s) = recvBuf_size"
  shows "\<exists>p b. loop_body env tv a s =
            (case attempt_reply p of None \<Rightarrow> Continue | Some r \<Rightarrow> Break (as_text (drop 35 r)),
             \<lparr>trace = trace s @ attempt_events tv a p, recvBuf = b\<rparr>)
          \<and> length b = recvBuf_size"
proof -
  define fd where "fd = os_socket env (trace s) (ai_family a)"
  define h1 where "h1 = trace s @ [Socket (ai_family a) fd]"
  define rc where "rc = os_setsockopt env h1 fd tv"
  define h2 where "h2 = h1 @ [Setsockopt fd tv rc]"
  define sent where "sent = os_sendto env h2 fd queryBuf (ai_addr a) (ai_addrlen a)"
  define h3 where "h3 = h2 @ [Sendto fd queryBuf (ai_addr a) (ai_addrlen a) sent]"
  define answer where "answer = os_recvfrom env h3 fd recvBuf_size"
  note defs = fd_def h1_def rc_def h2_def sent_def h3_def answer_def
  have s: "s = \<lparr>trace = trace s, recvBuf = recvBuf s\<rparr>" by simp
  consider (nosock) "fd = -1"
    | (noopt) "fd \<noteq> -1" "rc = -1"
    | (nosend) "fd \<noteq> -1" "rc \<noteq> -1" "sent = -1"
    | (norecv) "fd \<noteq> -1" "rc \<noteq> -1" "sent \<noteq> -1" "answer = None"
    | (recv) d where "fd \<noteq> -1" "rc \<noteq> -1" "sent \<noteq> -1" "answer = Some d"
    by (cases answer) auto
  then show ?thesis
  proof cases
    case nosock
    then have "loop_body env tv a s =
        (Continue, \<lparr>trace = trace s @ attempt_events tv a (fd, rc, sent, answer), recvBuf = recvBuf s\<rparr>)"
      "attempt_reply (fd, rc, sent, answer) = None"
      using defs
      by (simp_all add: loop_body_def sys_socket_def Let_def log_event_def SocketHandle_valid_def
          SocketHandle_close_def INVALID_SOCKET_VALUE_def)
    with len show ?thesis by (metis option.simps(4))
  next
    case noopt
    then have "loop_body env tv a s =
        (Continue, \<lparr>trace = trace s @ attempt_events tv a (fd, rc, sent, answer), recvBuf = recvBuf s\<rparr>)"
      "attempt_reply (fd, rc, sent, answer) = None"
      using defs
      by (simp_all add: loop_body_def sys_socket_def sys_setsockopt_def Let_def log_event_def
          SocketHandle_valid_def SocketHandle_close_def INVALID_SOCKET_VALUE_def
          SOCKET_ERROR_VALUE_def)
    with len show ?thesis by (metis option.simps(4))
  next
    case nosend
    then have "loop_body env tv a s =
        (Continue, \<lparr>trace = trace s @ attempt_events tv a (fd, rc, sent, answer), recvBuf = recvBuf s\<rparr>)"
      "attempt_reply (fd, rc, sent, answer) = None"
      using defs
      by (simp_all add: loop_body_def sys_socket_def sys_setsockopt_def sys_sendto_def Let_def
          log_event_def SocketHandle_valid_def SocketHandle_close_def INVALID_SOCKET_VALUE_def
          SOCKET_ERROR_VALUE_def)
    with len show ?thesis by (metis option.simps(4))
  next
    case norecv
    then have "loop_body env tv a s =
        (Continue, \<lparr>trace = trace s @ attempt_events tv a (fd, rc, sent, answer), recvBuf = recvBuf s\<rparr>)"
      "attempt_reply (fd, rc, sent, answer) = None"
      using defs len
      by (simp_all add: loop_body_def sys_socket_def sys_setsockopt_def sys_sendto_def
          sys_recvfrom_def Let_def
          log_event_def SocketHandle_valid_def SocketHandle_close_def INVALID_SOCKET_VALUE_def
          SOCKET_ERROR_VALUE_def)
    with len show ?thesis by (metis option.simps(4))
  next
    case recv
    let ?n = "min (length d) recvBuf_size"
    let ?b = "take ?n d @ drop ?n (recvBuf s)"
    have lb: "length ?b = recvBuf_size" using len by (simp add: min_def)
    show ?thesis
    proof (cases "35 < ?n")
      case True
      have "assign_result ?b (int ?n) = as_text (drop 35 (take recvBuf_size d))"
        using True len by (rule assign_received)
      with recv True have "loop_body env tv a s =
        (Break (as_text (drop 35 (take recvBuf_size d))),
         \<lparr>trace = trace s @ attempt_events tv a (fd, rc, sent, answer), recvBuf = ?b\<rparr>)"
      "attempt_reply (fd, rc, sent, answer) = Some (take recvBuf_size d)"
        using defs len
        by (simp_all add: loop_body_def sys_socket_def sys_setsockopt_def sys_sendto_def
          sys_recvfrom_def Let_def
          log_event_def SocketHandle_valid_def SocketHandle_close_def INVALID_SOCKET_VALUE_def
          SOCKET_ERROR_VALUE_def)
      with lb show ?thesis by (metis option.simps(5))
    next
      case False
      with recv have "loop_body env tv a s =
        (Continue,
         \<lparr>trace = trace s @ attempt_events tv a (fd, rc, sent, answer), recvBuf = ?b\<rparr>)"
      "attempt_reply (fd, rc, sent, answer) = None"
        using defs len
        by (simp_all add: loop_body_def sys_socket_def sys_setsockopt_def sys_sendto_def
          sys_recvfrom_def Let_def
          log_event_def SocketHandle_valid_def SocketHandle_close_def INVALID_SOCKET_VALUE_def
          SOCKET_ERROR_VALUE_def)
      with lb show ?thesis by (metis option.simps(4))
    qed
  qed
qed

lemma for_each_addr_run:
  assumes "length (recvBuf s) = recvBuf_size"
  shows "\<exists>ps b. valid_run ps (length as)
           \<and> for_each_addr env tv as s =
               (map_option (\<lambda>r. as_text (drop 35 r)) (run_reply ps),
                \<lparr>trace = trace s @ concat (run_events tv as ps), recvBuf = b\<rparr>)
           \<and> length b = recvBuf_size"
  using assms
proof (induction as arbitrary: s)
  case Nil
  have "valid_run [] (length ([]::addrinfo list))" by simp
  moreover have "for_each_addr env tv [] s =
      (map_option (\<lambda>r. as_text (drop 35 r)) (run_reply []),
       \<lparr>trace = trace s @ concat (run_events tv [] []), recvBuf = recvBuf s\<rparr>)"
    by (simp add: run_events_def)
  ultimately show ?case using Nil by blast
next
  case (Cons a as)
  from loop_body_run[OF Cons.prems, of env tv a]
  obtain p b where body: "loop_body env tv a s =
            (case attempt_reply p of None \<Rightarrow> Continue | Some r \<Rightarrow> Break (as_text (drop 35 r)),
             \<lparr>trace = trace s @ attempt_events tv a p, recvBuf = b\<rparr>)"
    and lb: "length b = recvBuf_size"
    by blast
  show ?case
  proof (cases "attempt_reply p")
    case (Some r)
    then have "valid_run [p] (length (a # as))" by simp
    moreover have "for_each_addr env tv (a # as) s =
        (map_option (\<lambda>r. as_text (drop 35 r)) (run_reply [p]),
         \<lparr>trace = trace s @ concat (run_events tv (a # as) [p]), recvBuf = b\<rparr>)"
      using body Some by (simp add: run_events_def)
    ultimately show ?thesis using lb by blast
  next
    case None
    let ?s' = "\<lparr>trace = trace s @ attempt_events tv a p, recvBuf = b\<rparr>"
    have "length (recvBuf ?s') = recvBuf_size" using lb by simp
    from Cons.IH[OF this]
    obtain ps b' where v: "valid_run ps (length as)"
      and run: "for_each_addr env tv as ?s' =
               (map_option (\<lambda>r. as_text (drop 35 r)) (run_reply ps),
                \<lparr>trace = trace ?s' @ concat (run_events tv as ps), recvBuf = b'\<rparr>)"
      and lb': "length b' = recvBuf_size"
      by blast
    have "valid_run (p # ps) (length (a # as))" using v None by simp
    moreover have "for_each_addr env tv (a # as) s =
        (map_option (\<lambda>r. as_text (drop 35 r)) (run_reply (p # ps)),
         \<lparr>trace = trace s @ concat (run_events tv (a # as) (p # ps)), recvBuf = b'\<rparr>)"
      using body None run by (simp add: run_events_def)
    ultimately show ?thesis using lb' by blast
  qed
qed

lemma QueryMotdImpl_resolved:
  assumes "os_getaddrinfo env host (to_string (unat port)) = (0, res)"
  shows "\<exists>ps. valid_run ps (length res)
           \<and> QueryMotdImpl env host port timeout =
               (case run_reply ps of
                  None \<Rightarrow> Inl (MotdException (all_failed_message host port))
                | Some r \<Rightarrow> Inr (as_text (drop 35 r)),
                Getaddrinfo host (to_string (unat port)) 0
                  # concat (run_events (timeval_of timeout) res ps) @ release_events res)"
proof -
  let ?s0 = "log_event (Getaddrinfo host (to_string (unat port)) 0) (initial_state env)"
  have "length (recvBuf ?s0) = recvBuf_size"
    by (simp add: log_event_def initial_state_def)
  from for_each_addr_run[OF this, of res env "timeval_of timeout"]
  obtain ps b where v: "valid_run ps (length res)"
    and run: "for_each_addr env (timeval_of timeout) res ?s0 =
               (map_option (\<lambda>r. as_text (drop 35 r)) (run_reply ps),
                \<lparr>trace = trace ?s0 @ concat (run_events (timeval_of timeout) res ps), recvBuf = b\<rparr>)"
    by blast
  have "QueryMotdImpl env host port timeout =
               (case run_reply ps of
                  None \<Rightarrow> Inl (MotdException (all_failed_message host port))
                | Some r \<Rightarrow> Inr (as_text (drop 35 r)),
                Getaddrinfo host (to_string (unat port)) 0
                  # concat (run_events (timeval_of timeout) res ps) @ release_events res)"
    using assms run
    by (simp add: QueryMotdImpl_def Let_def AddrInfoPtr_release_def release_events_def
          log_event_def initial_state_def split: option.splits)
  with v show ?thesis by blast
qed

lemma QueryMotdImpl_unresolved:
  assumes "os_getaddrinfo env host (to_string (unat port)) = (status, res)" and "status \<noteq> 0"
  shows "QueryMotdImpl env host port timeout =
           (Inl (MotdException (resolution_failed_message env status)),
            [Getaddrinfo host (to_string (unat port)) status])"
  using assms by (simp add: QueryMotdImpl_def Let_def log_event_def initial_state_def)

subsection \<open>The trace of a call\<close>

lemma run_events_Nil [simp]: "run_events tv [] ps = []" "run_events tv as [] = []"
  by (simp_all add: run_events_def)

lemma run_events_Cons [simp]:
  "run_events tv (a # as) (p # ps) = attempt_events tv a p # run_events tv as ps"
  by (simp add: run_events_def)

lemma filter_attempt_events: "filter socket_op (attempt_events tv a p) = attempt_events tv a p"
  by (cases p) simp

lemma group_attempt_events:
  "group_attempts (attempt_events tv a p @ ys) =
     ([], (attempt_events tv a p @ fst (group_attempts ys)) # snd (group_attempts ys))"
  by (cases p) (simp add: Let_def split: prod.splits)

lemma group_run_events: "group_attempts (concat (run_events tv as ps)) = ([], run_events tv as ps)"
proof (induction as arbitrary: ps)
  case Nil
  show ?case by simp
next
  case (Cons a as)
  show ?case
  proof (cases ps)
    case Nil
    then show ?thesis by simp
  next
    case (Cons p ps')
    then show ?thesis
      using Cons.IH[of ps'] by (simp add: group_attempt_events del: attempt_events.simps)
  qed
qed

lemma filter_run_events:
  "filter socket_op (concat (run_events tv as ps)) = concat (run_events tv as ps)"
proof (induction as arbitrary: ps)
  case Nil
  show ?case by simp
next
  case (Cons a as)
  show ?case
  proof (cases ps)
    case Nil
    then show ?thesis by simp
  next
    case (Cons p ps')
    then show ?thesis
      using Cons.IH[of ps'] by (simp add: filter_attempt_events del: attempt_events.simps)
  qed
qed

lemma attempts_of_run:
  "attempts (Getaddrinfo h sv st # concat (run_events tv as ps) @ release_events res)
     = run_events tv as ps"
  by (simp add: attempts_def filter_run_events group_run_events release_events_def)

lemma socket_ops_of_run:
  "filter socket_op (Getaddrinfo h sv st # concat (run_events tv as ps) @ release_events res)
     = concat (run_events tv as ps)"
  by (simp add: filter_run_events release_events_def)

lemma usable_replies_append:
  "usable_replies (xs @ ys) = usable_replies xs @ usable_replies ys"
  by (simp add: usable_replies_def map_filter_def)

lemma usable_replies_Cons:
  "usable_replies (e # es) = (case usable_reply e of None \<Rightarrow> [] | Some r \<Rightarrow> [r]) @ usable_replies es"
  by (simp add: usable_replies_def map_filter_def split: option.splits)

lemma usable_replies_Nil [simp]: "usable_replies [] = []"
  by (simp add: usable_replies_def map_filter_def)

lemma usable_replies_attempt:
  "usable_replies (attempt_events tv a p) = (case attempt_reply p of None \<Rightarrow> [] | Some r \<Rightarrow> [r])"
  by (cases p) (simp add: usable_replies_Cons split: option.splits)

lemma usable_replies_run:
  "valid_run ps (length as) \<Longrightarrow>
     usable_replies (concat (run_events tv as ps)) = (case run_reply ps of None \<Rightarrow> [] | Some r \<Rightarrow> [r])"
proof (induction as arbitrary: ps)
  case Nil
  then show ?case by (cases ps) simp_all
next
  case (Cons a as)
  show ?case
  proof (cases ps)
    case Nil
    then show ?thesis by simp
  next
    case (Cons p ps')
    show ?thesis
    proof (cases "attempt_reply p")
      case None
      with Cons Cons.prems have "valid_run ps' (length as)" by simp
      from Cons.IH[OF this] show ?thesis
        using Cons None
        by (simp add: usable_replies_append usable_replies_attempt del: attempt_events.simps)
    next
      case (Some r)
      with Cons Cons.prems have "ps' = []" by simp
      then show ?thesis
        using Cons Some
        by (simp add: usable_replies_append usable_replies_attempt del: attempt_events.simps)
    qed
  qed
qed

lemma usable_replies_trace:
  "valid_run ps (length as) \<Longrightarrow>
   usable_replies (Getaddrinfo h sv st # concat (run_events tv as ps) @ release_events res)
     = (case run_reply ps of None \<Rightarrow> [] | Some r \<Rightarrow> [r])"
  by (simp add: usable_replies_Cons usable_replies_append usable_replies_run release_events_def)

lemma valid_run_length: "valid_run ps n \<Longrightarrow> length ps \<le> n \<and> (run_reply ps = None \<longrightarrow> length ps = n)"
proof (induction ps arbitrary: n)
  case Nil
  then show ?case by simp
next
  case (Cons p ps)
  show ?case
  proof (cases "attempt_reply p")
    case None
    with Cons.prems have "valid_run ps (n - 1)" "0 < n" by simp_all
    from Cons.IH[OF this(1)] this(2) None show ?thesis by auto
  next
    case (Some r)
    with Cons.prems show ?thesis by auto
  qed
qed

lemma length_run_events: "length ps \<le> length as \<Longrightarrow> length (run_events tv as ps) = length ps"
  by (simp add: run_events_def)

lemma attempt_for_events: "attempt_for a (attempt_events tv a p)"
  by (cases p) simp

lemma attempt_for_run:
  "length ps \<le> length as \<Longrightarrow> list_all2 attempt_for (take (length ps) as) (run_events tv as ps)"
proof (induction as arbitrary: ps)
  case Nil
  then show ?case by simp
next
  case (Cons a as)
  show ?case
  proof (cases ps)
    case Nil
    then show ?thesis by simp
  next
    case (Cons p ps')
    with Cons.prems have "length ps' \<le> length as" by simp
    from Cons.IH[OF this] show ?thesis
      using Cons by (simp add: attempt_for_events del: attempt_events.simps)
  qed
qed

lemma winner_is_last:
  "valid_run ps n \<Longrightarrow> length ps \<le> length as \<Longrightarrow> run_reply ps = Some r \<Longrightarrow>
     run_events tv as ps \<noteq> [] \<and> usable_replies (last (run_events tv as ps)) = [r]
     \<and> usable_replies (concat (butlast (run_events tv as ps))) = []"
proof (induction as arbitrary: ps n)
  case Nil
  then show ?case by (cases ps) simp_all
next
  case (Cons a as)
  show ?case
  proof (cases ps)
    case Nil
    with Cons.prems show ?thesis by simp
  next
    case (Cons p ps')
    show ?thesis
    proof (cases "attempt_reply p")
      case None
      with Cons Cons.prems have v: "valid_run ps' (n - 1)" "length ps' \<le> length as"
        "run_reply ps' = Some r" by simp_all
      from Cons.IH[OF this] show ?thesis
        using Cons None
        by (simp add: usable_replies_append usable_replies_attempt del: attempt_events.simps)
    next
      case (Some r')
      with Cons Cons.prems have "ps' = []" "r' = r" by simp_all
      then show ?thesis
        using Cons Some
        by (simp add: usable_replies_attempt del: attempt_events.simps)
    qed
  qed
qed

lemma member_usable_replies:
  "e \<in> set tr \<Longrightarrow> usable_reply e = Some r \<Longrightarrow> r \<in> set (usable_replies tr)"
  by (induction tr) (auto simp: usable_replies_Cons)

lemma attempt_events_Recvfrom:
  "Recvfrom fd cap answer \<in> set (attempt_events tv a p) \<Longrightarrow> cap = recvBuf_size"
  by (cases p) (auto split: if_splits)

lemma attempt_events_Sendto:
  "Sendto fd buf dest len rc \<in> set (attempt_events tv a p) \<Longrightarrow> buf = queryBuf"
  by (cases p) (auto split: if_splits)

lemma attempt_events_Setsockopt:
  "Setsockopt fd tv' rc \<in> set (attempt_events tv a p) \<Longrightarrow> tv' = tv"
  by (cases p) (auto split: if_splits)

lemma run_events_member:
  "e \<in> set (concat (run_events tv as ps)) \<Longrightarrow> \<exists>a p. e \<in> set (attempt_events tv a p)"
proof (induction as arbitrary: ps)
  case Nil
  then show ?case by simp
next
  case (Cons a as)
  show ?case
  proof (cases ps)
    case Nil
    with Cons.prems show ?thesis by simp
  next
    case (Cons p ps')
    with Cons.prems have "e \<in> set (attempt_events tv a p) \<or> e \<in> set (concat (run_events tv as ps'))"
      by (simp del: attempt_events.simps)
    with Cons.IH[of ps'] show ?thesis by blast
  qed
qed

lemma trace_member:
  assumes "e \<in> set (snd (QueryMotdImpl env host port timeout))"
  shows "(\<exists>st. e = Getaddrinfo host (to_string (unat port)) st) \<or> e = Freeaddrinfo
         \<or> (\<exists>a p. e \<in> set (attempt_events (timeval_of timeout) a p))"
proof -
  obtain status res where g: "os_getaddrinfo env host (to_string (unat port)) = (status, res)"
    by (cases "os_getaddrinfo env host (to_string (unat port))")
  show ?thesis
  proof (cases "status = 0")
    case False
    from QueryMotdImpl_unresolved[OF g False, of timeout] assms show ?thesis by simp
  next
    case True
    with g QueryMotdImpl_resolved[of env host port res timeout]
    obtain ps where "snd (QueryMotdImpl env host port timeout) =
        Getaddrinfo host (to_string (unat port)) 0
          # concat (run_events (timeval_of timeout) res ps) @ release_events res"
      by auto
    with assms have "e = Getaddrinfo host (to_string (unat port)) 0
        \<or> e \<in> set (concat (run_events (timeval_of timeout) res ps)) \<or> e = Freeaddrinfo"
      by (auto simp: release_events_def split: if_splits)
    then show ?thesis using run_events_member by blast
  qed
qed

lemma QueryMotdImpl_shape:
  assumes "os_getaddrinfo env host (to_string (unat port)) = (status, res)"
  shows "\<exists>ps. valid_run ps (length res)
           \<and> attempts (snd (QueryMotdImpl env host port timeout))
               = (if status = 0 then run_events (timeval_of timeout) res ps else [])
           \<and> filter socket_op (snd (QueryMotdImpl env host port timeout))
               = (if status = 0 then concat (run_events (timeval_of timeout) res ps) else [])
           \<and> usable_replies (snd (QueryMotdImpl env host port timeout))
               = (if status = 0 then (case run_reply ps of None \<Rightarrow> [] | Some r \<Rightarrow> [r]) else [])
           \<and> fst (QueryMotdImpl env host port timeout)
               = (if status = 0
                  then (case run_reply ps of
                          None \<Rightarrow> Inl (MotdException (all_failed_message host port))
                        | Some r \<Rightarrow> Inr (as_text (drop 35 r)))
                  else Inl (MotdException (resolution_failed_message env status)))"
proof (cases "status = 0")
  case True
  with assms QueryMotdImpl_resolved[of env host port res timeout]
  obtain ps where v: "valid_run ps (length res)"
    and q: "QueryMotdImpl env host port timeout =
               (case run_reply ps of
                  None \<Rightarrow> Inl (MotdException (all_failed_message host port))
                | Some r \<Rightarrow> Inr (as_text (drop 35 r)),
                Getaddrinfo host (to_string (unat port)) 0
                  # concat (run_events (timeval_of timeout) res ps) @ release_events res)"
    by auto
  have tr: "snd (QueryMotdImpl env host port timeout) =
      Getaddrinfo host (to_string (unat port)) 0
        # concat (run_events (timeval_of timeout) res ps) @ release_events res"
    by (simp only: q snd_conv)
  have "attempts (snd (QueryMotdImpl env host port timeout)) = run_events (timeval_of timeout) res ps"
    by (simp only: tr attempts_of_run)
  moreover have "filter socket_op (snd (QueryMotdImpl env host port timeout))
      = concat (run_events (timeval_of timeout) res ps)"
    by (simp only: tr socket_ops_of_run)
  moreover have "usable_replies (snd (QueryMotdImpl env host port timeout))
      = (case run_reply ps of None \<Rightarrow> [] | Some r \<Rightarrow> [r])"
    by (simp only: tr usable_replies_trace[OF v])
  moreover have "fst (QueryMotdImpl env host port timeout)
      = (case run_reply ps of
           None \<Rightarrow> Inl (MotdException (all_failed_message host port))
         | Some r \<Rightarrow> Inr (as_text (drop 35 r)))"
    by (simp only: q fst_conv)
  ultimately show ?thesis
    using v True by (intro exI[of _ ps]) (simp only: if_True simp_thms)
next
  case False
  obtain ps :: "answers list" where v: "valid_run ps (length res)"
  proof -
    have "valid_run (replicate n (-1, 0, 0, None)) n" for n
      by (induction n) (simp_all add: INVALID_SOCKET_VALUE_def)
    then show ?thesis using that by blast
  qed
  from QueryMotdImpl_unresolved[OF assms False, of timeout] v False show ?thesis
    by (intro exI[of _ ps]) (simp add: attempts_def usable_replies_Cons)
qed

lemma attempt_events_counts:
  "count_events is_Socket (attempt_events tv a p) = 1
   \<and> count_events opens (attempt_events tv a p) \<le> 1
   \<and> count_events is_Close (attempt_events tv a p) = count_events opens (attempt_events tv a p)
   \<and> (count_events opens (attempt_events tv a p) = 1 \<longrightarrow> is_Close (last (attempt_events tv a p)))
   \<and> count_events is_Sendto (attempt_events tv a p) = count_events configures (attempt_events tv a p)
   \<and> count_events configures (attempt_events tv a p) \<le> count_events opens (attempt_events tv a p)
   \<and> count_events is_Recvfrom (attempt_events tv a p) \<le> count_events is_Sendto (attempt_events tv a p)
   \<and> list_all (\<lambda>e. descriptor e = descriptor (hd (attempt_events tv a p))) (attempt_events tv a p)"
  by (cases p) (simp add: count_events_def)

lemma run_events_elem:
  "es \<in> set (run_events tv as ps) \<Longrightarrow> \<exists>a p. es = attempt_events tv a p"
proof -
  assume "es \<in> set (run_events tv as ps)"
  then obtain a p where "(a, p) \<in> set (zip as ps)" "es = attempt_events tv a p"
    by (auto simp: run_events_def simp del: attempt_events.simps)
  then show ?thesis by blast
qed

lemma pass_shape_events: "pass_shape tv a (attempt_events tv a p)"
proof (cases p)
  case (fields fd rc sent answer)
  consider "fd = - 1" | "fd \<noteq> - 1" "rc = - 1" | "fd \<noteq> - 1" "rc \<noteq> - 1" "sent = - 1"
    | "fd \<noteq> - 1" "rc \<noteq> - 1" "sent \<noteq> - 1"
    by blast
  then show ?thesis
  proof cases
    case 1
    with fields show ?thesis
      by (simp add: pass_shape_def INVALID_SOCKET_VALUE_def)
  next
    case 2
    with fields show ?thesis
      by (simp add: pass_shape_def INVALID_SOCKET_VALUE_def SOCKET_ERROR_VALUE_def)
  next
    case 3
    with fields show ?thesis
      by (simp add: pass_shape_def INVALID_SOCKET_VALUE_def SOCKET_ERROR_VALUE_def)
  next
    case 4
    with fields show ?thesis
      by (simp add: pass_shape_def INVALID_SOCKET_VALUE_def SOCKET_ERROR_VALUE_def
            recvBuf_size_def)
  qed
qed

lemma pass_shape_run:
  "length ps \<le> length as \<Longrightarrow> list_all2 (pass_shape tv) (take (length ps) as) (run_events tv as ps)"
proof (induction as arbitrary: ps)
  case Nil
  then show ?case by simp
next
  case (Cons a as)
  show ?case
  proof (cases ps)
    case Nil
    then show ?thesis by simp
  next
    case (Cons p ps')
    with Cons.prems have "length ps' \<le> length as" by simp
    from Cons.IH[OF this] show ?thesis
      using Cons by (simp add: pass_shape_events del: attempt_events.simps)
  qed
qed

lemma run_stops_at_reply:
  assumes "valid_run ps (length as)"
  shows "length (run_events tv as ps) = length as
         \<or> (run_events tv as ps \<noteq> [] \<and> usable_replies (last (run_events tv as ps)) \<noteq> [])"
proof (cases "run_reply ps")
  case None
  with valid_run_length[OF assms] have "length ps = length as" by simp
  then show ?thesis by (simp add: length_run_events)
next
  case (Some r)
  from valid_run_length[OF assms] have "length ps \<le> length as" by simp
  from winner_is_last[OF assms this Some, of tv] show ?thesis by simp
qed

lemma failed_attempt_is_followed:
  assumes "length ats = n \<or> (ats \<noteq> [] \<and> usable_replies (last ats) \<noteq> [])"
    and "i < length ats" and "usable_replies (ats ! i) = []" and "Suc i < n"
  shows "Suc i < length ats"
proof (rule ccontr)
  assume "\<not> Suc i < length ats"
  with assms(2) have i: "i = length ats - 1" "ats \<noteq> []" by auto
  then have "ats ! i = last ats" by (simp add: last_conv_nth)
  with assms(1,3,4) i show False by auto
qed

lemma byte_of_char_of_byte: "word_of_nat (of_char (char_of_byte b)) = b"
proof -
  have "unat b < 256" using unsigned_less[of b] by simp
  then have "of_char (char_of_byte b) = unat b"
    by (simp add: char_of_byte_def)
  then show ?thesis by simp
qed

lemma bytes_of_as_text: "map (\<lambda>c. word_of_nat (of_char c)) (as_text bs) = bs"
  by (simp add: as_text_def byte_of_char_of_byte comp_def)

subsection \<open>Runs on the scripted operating system\<close>

lemmas probe_defs =
  QueryMotdImpl_def loop_body_def sys_socket_def sys_setsockopt_def
  sys_sendto_def sys_recvfrom_def log_event_def initial_state_def SocketHandle_valid_def
  SocketHandle_close_def AddrInfoPtr_release_def INVALID_SOCKET_VALUE_def SOCKET_ERROR_VALUE_def
  all_failed_message_def resolution_failed_message_def assign_result_def recvBuf_size_def Let_def

lemmas scripted_defs =
  scripted_os_def script_at_def count_events_def ipv4_candidate_def ipv6_candidate_def

lemma port_text: "to_string 19132 = ''19132''"
  by (simp add: to_string.simps digit_char_def)

lemma timeval_of_250: "timeval_of 250 = \<lparr>tv_sec = 0, tv_usec = 250000\<rparr>"
  by (simp add: timeval_of_def div_i64_def rem_i64_def signed_divide_int_def signed_modulo_int_def)

lemma timeval_of_minus_1500: "timeval_of (- 1500) = \<lparr>tv_sec = - 1, tv_usec = - 500000\<rparr>"
  by (simp add: timeval_of_def div_i64_def rem_i64_def signed_divide_int_def signed_modulo_int_def)

lemma pong_text: "as_text [0x4D, 0x43, 0x50, 0x45, 0x3B, 0x48, 0x69] = ''MCPE;Hi''"
  by code_simp

lemma answered_run:
  "QueryMotdImpl (scripted_os (0, [ipv6_candidate, ipv4_candidate]) [NoTimeout, Answers pong])
     ''localhost'' 19132 250
   = (Inr ''MCPE;Hi'',
      [Getaddrinfo ''localhost'' ''19132'' 0,
       Socket 10 3, Setsockopt 3 \<lparr>tv_sec = 0, tv_usec = 250000\<rparr> (- 1), Close 3,
       Socket 2 3, Setsockopt 3 \<lparr>tv_sec = 0, tv_usec = 250000\<rparr> 0,
       Sendto 3 queryBuf [2, 0, 0x4A, 0xBC, 127, 0, 0, 1] 16 33,
       Recvfrom 3 1024 (Some pong), Close 3,
       Freeaddrinfo])"
  by (simp add: probe_defs scripted_defs port_text timeval_of_250 pong_def pong_text queryBuf_def)

lemma failing_run:
  "QueryMotdImpl
     (scripted_os (0, [ipv6_candidate, ipv4_candidate, ipv4_candidate, ipv6_candidate, ipv4_candidate])
        [NoSocket, NoTimeout, SendFails, Silent, Answers (take 35 pong)])
     ''localhost'' 19132 250
   = (Inl (MotdException ''All connection attempts failed for localhost:19132''),
      [Getaddrinfo ''localhost'' ''19132'' 0,
       Socket 10 (- 1),
       Socket 2 3, Setsockopt 3 \<lparr>tv_sec = 0, tv_usec = 250000\<rparr> (- 1), Close 3,
       Socket 2 3, Setsockopt 3 \<lparr>tv_sec = 0, tv_usec = 250000\<rparr> 0,
       Sendto 3 queryBuf [2, 0, 0x4A, 0xBC, 127, 0, 0, 1] 16 (- 1), Close 3,
       Socket 10 3, Setsockopt 3 \<lparr>tv_sec = 0, tv_usec = 250000\<rparr> 0,
       Sendto 3 queryBuf [10, 0, 0x4A, 0xBC] 28 33, Recvfrom 3 1024 None, Close 3,
       Socket 2 3, Setsockopt 3 \<lparr>tv_sec = 0, tv_usec = 250000\<rparr> 0,
       Sendto 3 queryBuf [2, 0, 0x4A, 0xBC, 127, 0, 0, 1] 16 33,
       Recvfrom 3 1024 (Some (replicate 35 0x1C)), Close 3,
       Freeaddrinfo])"
  by (simp add: probe_defs scripted_defs port_text timeval_of_250 pong_def queryBuf_def)

lemma unconfigured_run:
  "QueryMotdImpl (scripted_os (0, [ipv6_candidate, ipv4_candidate]) [NoSocket, NoTimeout])
     ''localhost'' 19132 (- 1500)
   = (Inl (MotdException ''All connection attempts failed for localhost:19132''),
      [Getaddrinfo ''localhost'' ''19132'' 0,
       Socket 10 (- 1),
       Socket 2 3, Setsockopt 3 \<lparr>tv_sec = - 1, tv_usec = - 500000\<rparr> (- 1), Close 3,
       Freeaddrinfo])"
  by (simp add: probe_defs scripted_defs port_text timeval_of_minus_1500)

lemma unresolved_run:
  "QueryMotdImpl (scripted_os (- 2, []) []) ''no.such.host'' 19132 5000
   = (Inl (MotdException ''DNS resolution failed: Name or service not known''),
      [Getaddrinfo ''no.such.host'' ''19132'' (- 2)])"
  by (simp add: probe_defs scripted_defs port_text)

lemma failing_run_replies:
  "usable_replies (snd (QueryMotdImpl
     (scripted_os (0, [ipv6_candidate, ipv4_candidate, ipv4_candidate, ipv6_candidate, ipv4_candidate])
        [NoSocket, NoTimeout, SendFails, Silent, Answers (take 35 pong)])
     ''localhost'' 19132 250)) = []"
  by (simp add: failing_run usable_replies_Cons)

lemma failing_run_attempts:
  "attempts (snd (QueryMotdImpl
     (scripted_os (0, [ipv6_candidate, ipv4_candidate, ipv4_candidate, ipv6_candidate, ipv4_candidate])
        [NoSocket, NoTimeout, SendFails, Silent, Answers (take 35 pong)])
     ''localhost'' 19132 250))
     = [[Socket 10 (- 1)],
        [Socket 2 3, Setsockopt 3 \<lparr>tv_sec = 0, tv_usec = 250000\<rparr> (- 1), Close 3],
        [Socket 2 3, Setsockopt 3 \<lparr>tv_sec = 0, tv_usec = 250000\<rparr> 0,
         Sendto 3 queryBuf [2, 0, 0x4A, 0xBC, 127, 0, 0, 1] 16 (- 1), Close 3],
        [Socket 10 3, Setsockopt 3 \<lparr>tv_sec = 0, tv_usec = 250000\<rparr> 0,
         Sendto 3 queryBuf [10, 0, 0x4A, 0xBC] 28 33, Recvfrom 3 1024 None, Close 3],
        [Socket 2 3, Setsockopt 3 \<lparr>tv_sec = 0, tv_usec = 250000\<rparr> 0,
         Sendto 3 queryBuf [2, 0, 0x4A, 0xBC, 127, 0, 0, 1] 16 33,
         Recvfrom 3 1024 (Some (replicate 35 0x1C)), Close 3]]"
  by (simp add: failing_run attempts_def)


lemma answered_run_attempts:
  "attempts (snd (QueryMotdImpl (scripted_os (0, [ipv6_candidate, ipv4_candidate]) [NoTimeout, Answers pong])
                  ''localhost'' 19132 250))
   = [[Socket 10 3, Setsockopt 3 \<lparr>tv_sec = 0, tv_usec = 250000\<rparr> (- 1), Close 3],
      [Socket 2 3, Setsockopt 3 \<lparr>tv_sec = 0, tv_usec = 250000\<rparr> 0,
       Sendto 3 queryBuf [2, 0, 0x4A, 0xBC, 127, 0, 0, 1] 16 33,
       Recvfrom 3 1024 (Some pong), Close 3]]"
  by (simp add: answered_run attempts_def)

subsection \<open>The receive timeout\<close>

text \<open>
  C8. For every timeout \<open>t\<close> in milliseconds (any signed 64-bit value), the seconds field of
  the \<open>timeval\<close> is \<open>t / 1000\<close> and the microseconds field is \<open>(t % 1000) * 1000\<close>, with
  the division and remainder of C++ and without wrap-around in either field, and
  \<open>seconds * 1000 + microseconds / 1000\<close> is \<open>t\<close> again: nothing is rounded to whole
  seconds. Every \<open>setsockopt\<close> call of the routine is given this \<open>timeval\<close>.
\<close>

theorem timeout_keeps_milliseconds:
  "sint (tv_sec (timeval_of t)) = sint t sdiv 1000
   \<and> sint (tv_usec (timeval_of t)) = (sint t smod 1000) * 1000
   \<and> sint (tv_sec (timeval_of t)) * 1000 + sint (tv_usec (timeval_of t)) sdiv 1000 = sint t
   \<and> (\<forall>fd tv rc. Setsockopt fd tv rc \<in> set (snd (QueryMotdImpl env host port t))
          \<longrightarrow> tv = timeval_of t)"
proof -
  have "tv = timeval_of t"
    if "Setsockopt fd tv rc \<in> set (snd (QueryMotdImpl env host port t))" for fd tv rc
    using trace_member[OF that] attempt_events_Setsockopt by auto
  then show ?thesis
    by (simp add: timeval_of_def sint_div_i64 sint_usec sec_usec_recompose)
qed

text \<open>C8 on the run whose second candidate answers, with a timeout of 250 ms.\<close>

theorem timeout_keeps_milliseconds_witness:
  "Setsockopt 3 \<lparr>tv_sec = 0, tv_usec = 250000\<rparr> 0
     \<in> set (snd (QueryMotdImpl (scripted_os (0, [ipv6_candidate, ipv4_candidate]) [NoTimeout, Answers pong])
                  ''localhost'' 19132 250))
   \<and> timeval_of 250 = \<lparr>tv_sec = 0, tv_usec = 250000\<rparr>
   \<and> sint (0 :: 64 word) * 1000 + sint (250000 :: 64 word) sdiv 1000 = sint (250 :: 64 word)"
proof -
  have h: "Setsockopt 3 \<lparr>tv_sec = 0, tv_usec = 250000\<rparr> 0
     \<in> set (snd (QueryMotdImpl (scripted_os (0, [ipv6_candidate, ipv4_candidate]) [NoTimeout, Answers pong])
                  ''localhost'' 19132 250))"
    by (simp add: answered_run)
  from timeout_keeps_milliseconds
         [of 250 "scripted_os (0, [ipv6_candidate, ipv4_candidate]) [NoTimeout, Answers pong]"
             "''localhost''" 19132] h
  have e: "timeval_of 250 = \<lparr>tv_sec = 0, tv_usec = 250000\<rparr>"
    and r: "sint (tv_sec (timeval_of 250)) * 1000 + sint (tv_usec (timeval_of 250)) sdiv 1000
             = sint (250 :: 64 word)"
    by (blast dest: sym, blast)
  from r show ?thesis unfolding e using h e by simp
qed

subsection \<open>What the probe returns\<close>

text \<open>
  C1. Whenever a \<open>recvfrom\<close> call of the routine leaves more than 35 bytes in the buffer
  (\<open>recvLen = min (length d) cap > 35\<close> for the datagram \<open>d\<close> delivered into a buffer of
  \<open>cap\<close> bytes), the routine returns exactly the received bytes from offset 35 to the end,
  read as characters, and nothing else: the text holds those bytes one for one, its length
  is \<open>recvLen - 35\<close>, and the buffer is the 1024-byte \<open>recvBuf\<close>. What the buffer held
  before (uninitialised memory, an earlier short reply) never reaches the result.
\<close>

theorem reply_payload_is_returned:
  assumes "Recvfrom fd cap (Some d) \<in> set (snd (QueryMotdImpl env host port timeout))"
    and "35 < min (length d) cap"
  shows "fst (QueryMotdImpl env host port timeout) = Inr (as_text (drop 35 (take cap d)))
         \<and> map (\<lambda>c. word_of_nat (of_char c)) (as_text (drop 35 (take cap d))) = drop 35 (take cap d)
         \<and> length (as_text (drop 35 (take cap d))) = min (length d) cap - 35
         \<and> cap = recvBuf_size"
proof -
  let ?tr = "snd (QueryMotdImpl env host port timeout)"
  obtain status res where g: "os_getaddrinfo env host (to_string (unat port)) = (status, res)"
    by (cases "os_getaddrinfo env host (to_string (unat port))")
  have st: "status = 0"
  proof (rule ccontr)
    assume "status \<noteq> 0"
    from QueryMotdImpl_unresolved[OF g this, of timeout] assms(1) show False by simp
  qed
  with g QueryMotdImpl_resolved[of env host port res timeout]
  obtain ps where v: "valid_run ps (length res)"
    and q: "QueryMotdImpl env host port timeout =
               (case run_reply ps of
                  None \<Rightarrow> Inl (MotdException (all_failed_message host port))
                | Some r \<Rightarrow> Inr (as_text (drop 35 r)),
                Getaddrinfo host (to_string (unat port)) 0
                  # concat (run_events (timeval_of timeout) res ps) @ release_events res)"
    by auto
  have "usable_reply (Recvfrom fd cap (Some d)) = Some (take cap d)"
    using assms(2) by simp
  with assms(1) have "take cap d \<in> set (usable_replies ?tr)"
    by (rule member_usable_replies)
  moreover have "usable_replies ?tr = (case run_reply ps of None \<Rightarrow> [] | Some r \<Rightarrow> [r])"
    using usable_replies_trace[OF v] q by simp
  ultimately have "run_reply ps = Some (take cap d)"
    by (cases "run_reply ps") simp_all
  with q have r: "fst (QueryMotdImpl env host port timeout) = Inr (as_text (drop 35 (take cap d)))"
    by simp
  from trace_member[OF assms(1)] have cap: "cap = recvBuf_size"
    using attempt_events_Recvfrom by auto
  have "length (as_text (drop 35 (take cap d))) = min (length d) cap - 35"
    by (simp add: as_text_def)
  with r cap show ?thesis by (simp add: bytes_of_as_text)
qed

text \<open>
  C1 on a run: the first candidate's socket cannot be configured, the second one answers
  with a 42-byte pong whose last seven bytes are \<open>MCPE;Hi\<close>.
\<close>

theorem reply_payload_is_returned_witness:
  "Recvfrom 3 1024 (Some pong)
     \<in> set (snd (QueryMotdImpl (scripted_os (0, [ipv6_candidate, ipv4_candidate]) [NoTimeout, Answers pong])
                  ''localhost'' 19132 250))
   \<and> 35 < min (length pong) 1024
   \<and> fst (QueryMotdImpl (scripted_os (0, [ipv6_candidate, ipv4_candidate]) [NoTimeout, Answers pong])
            ''localhost'' 19132 250) = Inr ''MCPE;Hi''
   \<and> drop 35 (take 1024 pong) = [0x4D, 0x43, 0x50, 0x45, 0x3B, 0x48, 0x69]"
proof -
  have h1: "Recvfrom 3 1024 (Some pong)
     \<in> set (snd (QueryMotdImpl (scripted_os (0, [ipv6_candidate, ipv4_candidate]) [NoTimeout, Answers pong])
                  ''localhost'' 19132 250))"
    by (simp add: answered_run)
  have h2: "35 < min (length pong) 1024"
    by (simp add: pong_def)
  have p: "drop 35 (take 1024 pong) = [0x4D, 0x43, 0x50, 0x45, 0x3B, 0x48, 0x69]"
    by (simp add: pong_def)
  from reply_payload_is_returned[OF h1 h2] h1 h2 p show ?thesis
    by (simp add: pong_text)
qed

text \<open>
  C2. For every operating system, host, port and timeout, every datagram the routine hands
  to \<open>sendto\<close> is the 33-byte sequence
  \<open>01 00 00 00 00 FF FF C1 1D 00 FF FF 00 FE FE FE FE FD FD FD FD 12 34 56 78 9C 18 28 7F E1 64 89 8D\<close>.
\<close>

theorem probe_packet_is_constant:
  assumes "Sendto fd buf dest len rc \<in> set (snd (QueryMotdImpl env host port timeout))"
  shows "buf = [0x01, 0x00, 0x00, 0x00, 0x00, 0xFF, 0xFF, 0xC1, 0x1D, 0x00, 0xFF,
                0xFF, 0x00, 0xFE, 0xFE, 0xFE, 0xFE, 0xFD, 0xFD, 0xFD, 0xFD, 0x12,
                0x34, 0x56, 0x78, 0x9C, 0x18, 0x28, 0x7F, 0xE1, 0x64, 0x89, 0x8D]
         \<and> length buf = 33"
proof -
  from trace_member[OF assms] have "buf = queryBuf"
    using attempt_events_Sendto by auto
  then show ?thesis by (simp add: queryBuf_def)
qed

text \<open>C2 on a run in which one datagram is sent.\<close>

theorem probe_packet_is_constant_witness:
  "Sendto 3 queryBuf [2, 0, 0x4A, 0xBC, 127, 0, 0, 1] 16 33
     \<in> set (snd (QueryMotdImpl (scripted_os (0, [ipv6_candidate, ipv4_candidate]) [NoTimeout, Answers pong])
                  ''localhost'' 19132 250))
   \<and> queryBuf = [0x01, 0x00, 0x00, 0x00, 0x00, 0xFF, 0xFF, 0xC1, 0x1D, 0x00, 0xFF,
                0xFF, 0x00, 0xFE, 0xFE, 0xFE, 0xFE, 0xFD, 0xFD, 0xFD, 0xFD, 0x12,
                0x34, 0x56, 0x78, 0x9C, 0x18, 0x28, 0x7F, 0xE1, 0x64, 0x89, 0x8D]
   \<and> length queryBuf = 33"
proof -
  have h: "Sendto 3 queryBuf [2, 0, 0x4A, 0xBC, 127, 0, 0, 1] 16 33
     \<in> set (snd (QueryMotdImpl (scripted_os (0, [ipv6_candidate, ipv4_candidate]) [NoTimeout, Answers pong])
                  ''localhost'' 19132 250))"
    by (simp add: answered_run)
  from probe_packet_is_constant[OF h] h show ?thesis by blast
qed

subsection \<open>Failures\<close>

text \<open>
  C4. When resolution succeeded, the only error that leaves the routine is the one with the
  message \<open>All connection attempts failed for host:port\<close>. The attempts of the call are
  matched one to one, in order, with a prefix of the resolved candidates, and the attempt
  for a candidate is exactly one of: the \<open>socket\<close> call that failed, alone; \<open>socket\<close>,
  the \<open>setsockopt\<close> call that failed, \<open>close\<close>; \<open>socket\<close>, \<open>setsockopt\<close>, the \<open>sendto\<close>
  call that failed, \<open>close\<close> (so nothing is received after a failed send);
  \<open>socket\<close>, \<open>setsockopt\<close>, \<open>sendto\<close>, one \<open>recvfrom\<close>, \<open>close\<close>. An attempt that
  received no reply longer than 35 bytes (any of the failures, a receive error or
  timeout, a short reply) is followed by the attempt for the next candidate whenever
  there is a next candidate. If no attempt received a reply longer than 35 bytes, the
  call fails with exactly the all-attempts-failed error, after one attempt for every
  resolved candidate. If some attempt did, the failures before it did not surface: the
  call returns a result.
\<close>

theorem candidate_failures_only_advance:
  assumes "os_getaddrinfo env host (to_string (unat port)) = (0, res)"
  shows "(\<forall>e. fst (QueryMotdImpl env host port timeout) = Inl e \<longrightarrow>
            e = MotdException (''All connection attempts failed for '' @ host @ '':''
                                 @ to_string (unat port)))
       \<and> list_all2
           (\<lambda>a es.
              es = [Socket (ai_family a) (- 1)]
              \<or> (\<exists>fd. fd \<noteq> - 1
                    \<and> es = [Socket (ai_family a) fd,
                            Setsockopt fd (timeval_of timeout) (- 1), Close fd])
              \<or> (\<exists>fd rc. fd \<noteq> - 1 \<and> rc \<noteq> - 1
                    \<and> es = [Socket (ai_family a) fd, Setsockopt fd (timeval_of timeout) rc,
                            Sendto fd queryBuf (ai_addr a) (ai_addrlen a) (- 1), Close fd])
              \<or> (\<exists>fd rc sent answer. fd \<noteq> - 1 \<and> rc \<noteq> - 1 \<and> sent \<noteq> - 1
                    \<and> es = [Socket (ai_family a) fd, Setsockopt fd (timeval_of timeout) rc,
                            Sendto fd queryBuf (ai_addr a) (ai_addrlen a) sent,
                            Recvfrom fd 1024 answer, Close fd]))
           (take (length (attempts (snd (QueryMotdImpl env host port timeout)))) res)
           (attempts (snd (QueryMotdImpl env host port timeout)))
       \<and> (\<forall>i < length (attempts (snd (QueryMotdImpl env host port timeout))).
            usable_replies (attempts (snd (QueryMotdImpl env host port timeout)) ! i) = []
              \<and> Suc i < length res
            \<longrightarrow> Suc i < length (attempts (snd (QueryMotdImpl env host port timeout))))
       \<and> (usable_replies (snd (QueryMotdImpl env host port timeout)) = [] \<longrightarrow>
            fst (QueryMotdImpl env host port timeout)
              = Inl (MotdException (''All connection attempts failed for '' @ host @ '':''
                                      @ to_string (unat port)))
            \<and> length (attempts (snd (QueryMotdImpl env host port timeout))) = length res
            \<and> list_all2 attempt_for res (attempts (snd (QueryMotdImpl env host port timeout))))
       \<and> (usable_replies (snd (QueryMotdImpl env host port timeout)) \<noteq> [] \<longrightarrow>
            (\<exists>m. fst (QueryMotdImpl env host port timeout) = Inr m))"
proof -
  let ?Q = "QueryMotdImpl env host port timeout"
  let ?tv = "timeval_of timeout"
  from QueryMotdImpl_shape[OF assms, of timeout]
  obtain ps where v: "valid_run ps (length res)"
    and at: "attempts (snd ?Q) = run_events ?tv res ps"
    and us: "usable_replies (snd ?Q) = (case run_reply ps of None \<Rightarrow> [] | Some r \<Rightarrow> [r])"
    and r: "fst ?Q = (case run_reply ps of
                          None \<Rightarrow> Inl (MotdException (all_failed_message host port))
                        | Some r \<Rightarrow> Inr (as_text (drop 35 r)))"
    by auto
  from valid_run_length[OF v] have l: "length ps \<le> length res" by simp
  have 1: "\<forall>e. fst ?Q = Inl e \<longrightarrow> e = MotdException (all_failed_message host port)"
    using r by (cases "run_reply ps") simp_all
  have 2: "list_all2 (pass_shape ?tv) (take (length (attempts (snd ?Q))) res) (attempts (snd ?Q))"
    using pass_shape_run[OF l, of ?tv] l by (simp add: at length_run_events)
  have stop: "length (attempts (snd ?Q)) = length res
      \<or> (attempts (snd ?Q) \<noteq> [] \<and> usable_replies (last (attempts (snd ?Q))) \<noteq> [])"
    using run_stops_at_reply[OF v, of ?tv] by (simp add: at)
  have 3: "\<forall>i < length (attempts (snd ?Q)).
            usable_replies (attempts (snd ?Q) ! i) = [] \<and> Suc i < length res
            \<longrightarrow> Suc i < length (attempts (snd ?Q))"
    using failed_attempt_is_followed[OF stop] by blast
  have 4: "fst ?Q = Inl (MotdException (all_failed_message host port))
           \<and> length (attempts (snd ?Q)) = length res
           \<and> list_all2 attempt_for res (attempts (snd ?Q))"
    if "usable_replies (snd ?Q) = []"
  proof -
    from that us have n: "run_reply ps = None" by (cases "run_reply ps") simp_all
    with valid_run_length[OF v] have l: "length ps = length res" by simp
    then have "list_all2 attempt_for (take (length ps) res) (run_events ?tv res ps)"
      by (intro attempt_for_run) simp
    with l at n r show ?thesis by (simp add: length_run_events)
  qed
  have 5: "\<exists>m. fst ?Q = Inr m" if "usable_replies (snd ?Q) \<noteq> []"
    using that us r by (cases "run_reply ps") simp_all
  have msg: "all_failed_message host port
      = ''All connection attempts failed for '' @ host @ '':'' @ to_string (unat port)"
    by (simp only: all_failed_message_def)
  from 1 2 3 4 5 show ?thesis
    unfolding msg pass_shape_def by blast
qed

text \<open>
  C4 on a run with five candidates that fail in the five ways: no socket, receive timeout
  not configurable, send failure, no answer, an answer of exactly 35 bytes.
\<close>

theorem candidate_failures_only_advance_witness:
  "os_getaddrinfo
     (scripted_os (0, [ipv6_candidate, ipv4_candidate, ipv4_candidate, ipv6_candidate, ipv4_candidate])
        [NoSocket, NoTimeout, SendFails, Silent, Answers (take 35 pong)])
     ''localhost'' (to_string (unat (19132 :: 16 word)))
     = (0, [ipv6_candidate, ipv4_candidate, ipv4_candidate, ipv6_candidate, ipv4_candidate])
   \<and> fst (QueryMotdImpl
     (scripted_os (0, [ipv6_candidate, ipv4_candidate, ipv4_candidate, ipv6_candidate, ipv4_candidate])
        [NoSocket, NoTimeout, SendFails, Silent, Answers (take 35 pong)])
     ''localhost'' 19132 250)
     = Inl (MotdException ''All connection attempts failed for localhost:19132'')
   \<and> attempts (snd (QueryMotdImpl
     (scripted_os (0, [ipv6_candidate, ipv4_candidate, ipv4_candidate, ipv6_candidate, ipv4_candidate])
        [NoSocket, NoTimeout, SendFails, Silent, Answers (take 35 pong)])
     ''localhost'' 19132 250))
     = [[Socket 10 (- 1)],
        [Socket 2 3, Setsockopt 3 \<lparr>tv_sec = 0, tv_usec = 250000\<rparr> (- 1), Close 3],
        [Socket 2 3, Setsockopt 3 \<lparr>tv_sec = 0, tv_usec = 250000\<rparr> 0,
         Sendto 3 queryBuf [2, 0, 0x4A, 0xBC, 127, 0, 0, 1] 16 (- 1), Close 3],
        [Socket 10 3, Setsockopt 3 \<lparr>tv_sec = 0, tv_usec = 250000\<rparr> 0,
         Sendto 3 queryBuf [10, 0, 0x4A, 0xBC] 28 33, Recvfrom 3 1024 None, Close 3],
        [Socket 2 3, Setsockopt 3 \<lparr>tv_sec = 0, tv_usec = 250000\<rparr> 0,
         Sendto 3 queryBuf [2, 0, 0x4A, 0xBC, 127, 0, 0, 1] 16 33,
         Recvfrom 3 1024 (Some (replicate 35 0x1C)), Close 3]]
   \<and> length (attempts (snd (QueryMotdImpl
     (scripted_os (0, [ipv6_candidate, ipv4_candidate, ipv4_candidate, ipv6_candidate, ipv4_candidate])
        [NoSocket, NoTimeout, SendFails, Silent, Answers (take 35 pong)])
     ''localhost'' 19132 250))) = 5"
proof -
  let ?res = "[ipv6_candidate, ipv4_candidate, ipv4_candidate, ipv6_candidate, ipv4_candidate]"
  let ?E = "scripted_os (0, ?res) [NoSocket, NoTimeout, SendFails, Silent, Answers (take 35 pong)]"
  have h: "os_getaddrinfo ?E ''localhost'' (to_string (unat (19132 :: 16 word))) = (0, ?res)"
    by (simp add: scripted_os_def)
  from candidate_failures_only_advance[OF h, of 250] failing_run_replies
  have "fst (QueryMotdImpl ?E ''localhost'' 19132 250)
          = Inl (MotdException (''All connection attempts failed for '' @ ''localhost'' @ '':''
                                      @ to_string (unat (19132 :: 16 word))))"
    and "length (attempts (snd (QueryMotdImpl ?E ''localhost'' 19132 250))) = length ?res"
    by blast+
  then show ?thesis
    using h by (simp add: port_text failing_run_attempts)
qed

text \<open>
  C5. If \<open>getaddrinfo\<close> returns a status other than zero, the call fails with the message
  \<open>DNS resolution failed: \<close> followed by the resolver's text for the status. That message
  differs from the all-attempts-failed message of every host and port, and the trace of
  the call is the \<open>getaddrinfo\<close> call alone: no socket was created, nothing was sent.
\<close>

theorem resolution_failure_is_immediate:
  assumes "os_getaddrinfo env host (to_string (unat port)) = (status, res)" and "status \<noteq> 0"
  shows "QueryMotdImpl env host port timeout =
           (Inl (MotdException (''DNS resolution failed: '' @ os_gai_strerror env status)),
            [Getaddrinfo host (to_string (unat port)) status])
         \<and> ''DNS resolution failed: '' @ os_gai_strerror env status \<noteq> all_failed_message host' port'
         \<and> count_events socket_op (snd (QueryMotdImpl env host port timeout)) = 0"
  using assms
  by (simp add: QueryMotdImpl_def Let_def log_event_def initial_state_def
        resolution_failed_message_def all_failed_message_def count_events_def)

text \<open>C5 on a run whose resolver answers \<open>EAI_NONAME\<close> (\<open>-2\<close>).\<close>

theorem resolution_failure_is_immediate_witness:
  "QueryMotdImpl (scripted_os (-2, []) []) ''no.such.host'' 19132 5000 =
     (Inl (MotdException ''DNS resolution failed: Name or service not known''),
      [Getaddrinfo ''no.such.host'' ''19132'' (-2)])"
  using resolution_failure_is_immediate
    [of "scripted_os (-2, []) []" "''no.such.host''" 19132 "-2" "[]" 5000]
  by (simp add: scripted_os_def digit_char_def to_string.simps)

subsection \<open>Candidates, attempts and sockets\<close>



text \<open>
  C9, as the claim states it, fails. With two candidates, \<open>socket\<close> failing for the first
  and \<open>setsockopt\<close> failing for the second (as it does for the negative timeout of this
  run), the attempt for the first candidate opens no socket, and the attempt for the second
  opens a socket on which nothing is sent.
\<close>

theorem opened_socket_without_send:
  "attempts (snd (QueryMotdImpl (scripted_os (0, [ipv6_candidate, ipv4_candidate]) [NoSocket, NoTimeout])
                    ''localhost'' 19132 (- 1500)))
     = [[Socket 10 (- 1)],
        [Socket 2 3, Setsockopt 3 \<lparr>tv_sec = - 1, tv_usec = - 500000\<rparr> (- 1), Close 3]]
   \<and> count_events opens [Socket 10 (- 1)] = 0
   \<and> count_events opens
        [Socket 2 3, Setsockopt 3 \<lparr>tv_sec = - 1, tv_usec = - 500000\<rparr> (- 1), Close 3] = 1
   \<and> count_events is_Sendto
        [Socket 2 3, Setsockopt 3 \<lparr>tv_sec = - 1, tv_usec = - 500000\<rparr> (- 1), Close 3] = 0"
  by (simp add: unconfigured_run attempts_def count_events_def INVALID_SOCKET_VALUE_def)

text \<open>
  C9, amended. In every call there are no more attempts than resolved candidates, every
  socket call belongs to an attempt, and the attempts are matched one to one, in order,
  with a prefix of the resolved candidates: no address is tried twice. The attempt for a
  candidate is exactly one of four sequences of calls: a failed \<open>socket\<close> call alone (no
  socket is opened); \<open>socket\<close>, a failed \<open>setsockopt\<close>, \<open>close\<close> (a socket is opened
  and closed, nothing is sent); \<open>socket\<close>, \<open>setsockopt\<close>, a failed \<open>sendto\<close>, \<open>close\<close>;
  \<open>socket\<close>, \<open>setsockopt\<close>, \<open>sendto\<close>, \<open>recvfrom\<close>, \<open>close\<close>. So each attempt makes
  exactly one \<open>socket\<close> call and opens at most one socket; it closes exactly the socket
  it opened, as its last call; it sends exactly one datagram, the probe packet to the
  candidate's address, if the receive timeout of its socket was configured and none
  otherwise; it receives at most once, and only directly after its one successful send;
  and all its calls are on the descriptor its \<open>socket\<close> call returned.
\<close>

theorem sockets_per_attempt:
  "length (attempts (snd (QueryMotdImpl env host port timeout)))
        \<le> length (snd (os_getaddrinfo env host (to_string (unat port))))
   \<and> concat (attempts (snd (QueryMotdImpl env host port timeout)))
        = filter socket_op (snd (QueryMotdImpl env host port timeout))
   \<and> list_all2
        (\<lambda>a es.
           es = [Socket (ai_family a) (- 1)]
           \<or> (\<exists>fd. fd \<noteq> - 1
                 \<and> es = [Socket (ai_family a) fd,
                         Setsockopt fd (timeval_of timeout) (- 1), Close fd])
           \<or> (\<exists>fd rc. fd \<noteq> - 1 \<and> rc \<noteq> - 1
                 \<and> es = [Socket (ai_family a) fd, Setsockopt fd (timeval_of timeout) rc,
                         Sendto fd queryBuf (ai_addr a) (ai_addrlen a) (- 1), Close fd])
           \<or> (\<exists>fd rc sent answer. fd \<noteq> - 1 \<and> rc \<noteq> - 1 \<and> sent \<noteq> - 1
                 \<and> es = [Socket (ai_family a) fd, Setsockopt fd (timeval_of timeout) rc,
                         Sendto fd queryBuf (ai_addr a) (ai_addrlen a) sent,
                         Recvfrom fd 1024 answer, Close fd]))
        (take (length (attempts (snd (QueryMotdImpl env host port timeout))))
              (snd (os_getaddrinfo env host (to_string (unat port)))))
        (attempts (snd (QueryMotdImpl env host port timeout)))
   \<and> (\<forall>es \<in> set (attempts (snd (QueryMotdImpl env host port timeout))).
          count_events is_Socket es = 1
        \<and> count_events opens es \<le> 1
        \<and> count_events is_Close es = count_events opens es
        \<and> (count_events opens es = 1 \<longrightarrow> is_Close (last es))
        \<and> count_events is_Sendto es = count_events configures es
        \<and> count_events configures es \<le> count_events opens es
        \<and> count_events is_Recvfrom es \<le> count_events is_Sendto es
        \<and> list_all (\<lambda>e. descriptor e = descriptor (hd es)) es)"
proof -
  let ?Q = "QueryMotdImpl env host port timeout"
  let ?tv = "timeval_of timeout"
  obtain status res where g: "os_getaddrinfo env host (to_string (unat port)) = (status, res)"
    by (cases "os_getaddrinfo env host (to_string (unat port))")
  from QueryMotdImpl_shape[OF g, of timeout]
  obtain ps where v: "valid_run ps (length res)"
    and at: "attempts (snd ?Q) = (if status = 0 then run_events ?tv res ps else [])"
    and so: "filter socket_op (snd ?Q) = (if status = 0 then concat (run_events ?tv res ps) else [])"
    by blast
  from valid_run_length[OF v] have l: "length ps \<le> length res" by simp
  have 1: "length (attempts (snd ?Q)) \<le> length res"
    using at l by (simp add: length_run_events)
  have 2: "concat (attempts (snd ?Q)) = filter socket_op (snd ?Q)"
    using at so by simp
  have 3: "list_all2 (pass_shape ?tv) (take (length (attempts (snd ?Q))) res) (attempts (snd ?Q))"
    using pass_shape_run[OF l, of ?tv] l by (simp add: at length_run_events)
  have 4: "count_events is_Socket es = 1
        \<and> count_events opens es \<le> 1
        \<and> count_events is_Close es = count_events opens es
        \<and> (count_events opens es = 1 \<longrightarrow> is_Close (last es))
        \<and> count_events is_Sendto es = count_events configures es
        \<and> count_events configures es \<le> count_events opens es
        \<and> count_events is_Recvfrom es \<le> count_events is_Sendto es
        \<and> list_all (\<lambda>e. descriptor e = descriptor (hd es)) es"
    if "es \<in> set (attempts (snd ?Q))" for es
  proof -
    from that at have "es \<in> set (run_events ?tv res ps)" by (simp split: if_splits)
    then obtain a p where es: "es = attempt_events ?tv a p" using run_events_elem by blast
    from attempt_events_counts[of ?tv a p] show ?thesis unfolding es .
  qed
  have res: "snd (os_getaddrinfo env host (to_string (unat port))) = res"
    using g by simp
  show ?thesis
    unfolding res using 1 2 3 4 unfolding pass_shape_def by blast
qed

text \<open>C9, amended, on the attempt that gets an answer.\<close>

theorem sockets_per_attempt_witness:
  "last (attempts (snd (QueryMotdImpl
        (scripted_os (0, [ipv6_candidate, ipv4_candidate]) [NoTimeout, Answers pong])
                  ''localhost'' 19132 250)))
     \<in> set (attempts (snd (QueryMotdImpl
        (scripted_os (0, [ipv6_candidate, ipv4_candidate]) [NoTimeout, Answers pong])
                  ''localhost'' 19132 250)))
   \<and> count_events opens (last (attempts (snd (QueryMotdImpl
        (scripted_os (0, [ipv6_candidate, ipv4_candidate]) [NoTimeout, Answers pong])
                  ''localhost'' 19132 250)))) = 1
   \<and> count_events is_Close (last (attempts (snd (QueryMotdImpl
        (scripted_os (0, [ipv6_candidate, ipv4_candidate]) [NoTimeout, Answers pong])
                  ''localhost'' 19132 250)))) = 1
   \<and> count_events is_Sendto (last (attempts (snd (QueryMotdImpl
        (scripted_os (0, [ipv6_candidate, ipv4_candidate]) [NoTimeout, Answers pong])
                  ''localhost'' 19132 250)))) = 1
   \<and> is_Close (last (last (attempts (snd (QueryMotdImpl
        (scripted_os (0, [ipv6_candidate, ipv4_candidate]) [NoTimeout, Answers pong])
                  ''localhost'' 19132 250)))))"
proof -
  let ?ats = "attempts (snd (QueryMotdImpl
        (scripted_os (0, [ipv6_candidate, ipv4_candidate]) [NoTimeout, Answers pong])
                  ''localhost'' 19132 250))"
  have m: "last ?ats \<in> set ?ats"
    by (simp add: answered_run_attempts)
  have o: "count_events opens (last ?ats) = 1" "count_events configures (last ?ats) = 1"
    by (simp_all add: answered_run_attempts count_events_def INVALID_SOCKET_VALUE_def
          SOCKET_ERROR_VALUE_def)
  from sockets_per_attempt
          [of "scripted_os (0, [ipv6_candidate, ipv4_candidate]) [NoTimeout, Answers pong]"
              "''localhost''" 19132 250] m
  have "count_events is_Close (last ?ats) = count_events opens (last ?ats)
      \<and> (count_events opens (last ?ats) = 1 \<longrightarrow> is_Close (last (last ?ats)))
      \<and> count_events is_Sendto (last ?ats) = count_events configures (last ?ats)"
    by blast
  with m o show ?thesis by simp
qed

subsection \<open>The continuations\<close>

lemma queryMotdAsync_calls:
  "fst (queryMotdAsync env host port onSuccess onError timeout)
     = thread_body (fst (QueryMotdImpl env host port timeout)) onSuccess onError"
  by (simp add: queryMotdAsync_def split: prod.splits)

lemma thread_body_failure:
  "thread_body (Inl e) onSuccess onError = catch_handlers e onError"
  by (simp add: thread_body_def try_block_def split: prod.splits)

lemma probe_throws_MotdException:
  "fst (QueryMotdImpl env host port timeout) = Inl e \<Longrightarrow> \<exists>msg. e = MotdException msg"
  by (auto simp: QueryMotdImpl_def Let_def split: prod.splits if_splits option.splits)

text \<open>
  C7. With a non-empty error continuation \<open>g\<close>: if the probe fails with \<open>e\<close>, the thread
  calls \<open>g\<close> on \<open>e\<close>, calls nothing else, and nothing but what \<open>g\<close> itself throws leaves
  the thread. With a non-empty success continuation \<open>f\<close>: if the probe returns \<open>m\<close>, the
  first call of the thread is \<open>f\<close> on \<open>m\<close>, and the only one when \<open>f\<close> returns. Whatever
  is thrown in the \<open>try\<close> block in place of a probe result reaches \<open>g\<close>: a
  \<open>std::exception\<close> as it is, anything else as
  \<open>std::runtime_error("Unknown exception")\<close>.
\<close>

theorem failures_reach_error_continuation:
  "(fst (QueryMotdImpl env host port timeout) = Inl e \<longrightarrow>
      fst (queryMotdAsync env host port onSuccess (Some g) timeout) = ([OnError e], g e))
   \<and> (fst (QueryMotdImpl env host port timeout) = Inr m \<longrightarrow>
      (\<exists>more. fst (queryMotdAsync env host port (Some f) onError timeout)
                 = (OnSuccess m # fst more, snd more))
      \<and> (f m = None \<longrightarrow>
           fst (queryMotdAsync env host port (Some f) onError timeout) = ([OnSuccess m], None)))
   \<and> thread_body (Inl x) onSuccess (Some g) =
       (if is_std_exception x then ([OnError x], g x)
        else ([OnError (RuntimeError ''Unknown exception'')],
              g (RuntimeError ''Unknown exception'')))"
proof (intro conjI impI)
  assume a: "fst (QueryMotdImpl env host port timeout) = Inl e"
  then obtain msg where "e = MotdException msg"
    using probe_throws_MotdException by blast
  with a show "fst (queryMotdAsync env host port onSuccess (Some g) timeout) = ([OnError e], g e)"
    by (simp add: queryMotdAsync_calls thread_body_failure catch_handlers_def)
next
  assume a: "fst (QueryMotdImpl env host port timeout) = Inr m"
  show "\<exists>more. fst (queryMotdAsync env host port (Some f) onError timeout)
                 = (OnSuccess m # fst more, snd more)"
  proof (cases "f m")
    case None
    with a show ?thesis
      by (simp add: queryMotdAsync_calls thread_body_def try_block_def split: prod.splits)
  next
    case (Some e')
    with a have "fst (queryMotdAsync env host port (Some f) onError timeout)
        = (OnSuccess m # fst (catch_handlers e' onError), snd (catch_handlers e' onError))"
      by (simp add: queryMotdAsync_calls thread_body_def try_block_def split: prod.splits)
    then show ?thesis by (metis fst_conv snd_conv)
  qed
next
  assume "fst (QueryMotdImpl env host port timeout) = Inr m" "f m = None"
  then show "fst (queryMotdAsync env host port (Some f) onError timeout) = ([OnSuccess m], None)"
    by (simp add: queryMotdAsync_calls thread_body_def try_block_def split: prod.splits)
next
  show "thread_body (Inl x) onSuccess (Some g) =
       (if is_std_exception x then ([OnError x], g x)
        else ([OnError (RuntimeError ''Unknown exception'')],
              g (RuntimeError ''Unknown exception'')))"
    by (simp add: thread_body_failure catch_handlers_def)
qed

text \<open>
  C7 on a run that fails to resolve, on the run whose second candidate answers, and on a
  thrown object that is not a \<open>std::exception\<close>.
\<close>

theorem failures_reach_error_continuation_witness:
  "fst (queryMotdAsync (scripted_os (- 2, []) []) ''no.such.host'' 19132 None (Some (\<lambda>e. None)) 5000)
     = ([OnError (MotdException ''DNS resolution failed: Name or service not known'')], None)
   \<and> fst (queryMotdAsync (scripted_os (0, [ipv6_candidate, ipv4_candidate]) [NoTimeout, Answers pong])
            ''localhost'' 19132 (Some (\<lambda>m. None)) None 250)
     = ([OnSuccess ''MCPE;Hi''], None)
   \<and> thread_body (Inl NonStdThrow) None (Some (\<lambda>e. None))
     = ([OnError (RuntimeError ''Unknown exception'')], None)"
  using failures_reach_error_continuation
          [where env = "scripted_os (- 2, []) []" and host = "''no.such.host''" and port = 19132
             and timeout = 5000 and onSuccess = None and g = "\<lambda>e. None"
             and e = "MotdException ''DNS resolution failed: Name or service not known''"
             and x = NonStdThrow]
        failures_reach_error_continuation
          [where env = "scripted_os (0, [ipv6_candidate, ipv4_candidate]) [NoTimeout, Answers pong]"
             and host = "''localhost''" and port = 19132 and timeout = 250
             and f = "\<lambda>m. None" and onError = None and m = "''MCPE;Hi''"]
  by (simp add: unresolved_run answered_run)

text \<open>
  C10. With an empty error continuation a failing probe leads to no call at all and no
  exception leaves the thread; with an empty success continuation the result of a
  succeeding probe is dropped in the same way. With an empty error continuation nothing
  ever leaves the thread, also when the success continuation throws.
\<close>

theorem empty_continuations_discard:
  "(fst (QueryMotdImpl env host port timeout) = Inl e \<longrightarrow>
      fst (queryMotdAsync env host port onSuccess None timeout) = ([], None))
   \<and> (fst (QueryMotdImpl env host port timeout) = Inr m \<longrightarrow>
      fst (queryMotdAsync env host port None onError timeout) = ([], None))
   \<and> thread_body (Inl x) onSuccess None = ([], None)
   \<and> thread_body (Inr r) None onError = ([], None)
   \<and> snd (thread_body outcome onSuccess None) = None"
  by (auto simp: queryMotdAsync_calls thread_body_def try_block_def catch_handlers_def
           split: prod.splits sum.splits option.splits)

text \<open>C10 on a run that fails to resolve and on the run whose second candidate answers.\<close>

theorem empty_continuations_discard_witness:
  "fst (queryMotdAsync (scripted_os (- 2, []) []) ''no.such.host'' 19132 (Some (\<lambda>m. None)) None 5000)
     = ([], None)
   \<and> fst (queryMotdAsync (scripted_os (0, [ipv6_candidate, ipv4_candidate]) [NoTimeout, Answers pong])
            ''localhost'' 19132 None (Some (\<lambda>e. None)) 250)
     = ([], None)"
  using empty_continuations_discard
          [where env = "scripted_os (- 2, []) []" and host = "''no.such.host''" and port = 19132
             and timeout = 5000 and onSuccess = "Some (\<lambda>m. None)"
             and e = "MotdException ''DNS resolution failed: Name or service not known''"]
        empty_continuations_discard
          [where env = "scripted_os (0, [ipv6_candidate, ipv4_candidate]) [NoTimeout, Answers pong]"
             and host = "''localhost''" and port = 19132 and timeout = 250
             and onError = "Some (\<lambda>e. None)" and m = "''MCPE;Hi''"]
  by (simp add: unresolved_run answered_run)

end
